theory Spec2Isabelle
  imports Complex_Main
begin

section \<open>Python values and column data types\<close>

text \<open>
  The values a cell of a row can hold (Python 2): \<open>None\<close>, \<open>bool\<close>, \<open>int\<close>, \<open>long\<close>,
  \<open>float\<close>, \<open>str\<close>, \<open>unicode\<close> and nested lists. The payload of a float is the type
  parameter \<open>'f\<close>: nothing in \<open>frame.py\<close> looks inside a float, only at its class.
\<close>

datatype 'f pyval =
    VNone
  | VBool bool
  | VInt int
  | VLong int
  | VFloat 'f
  | VStr string
  | VUnicode string
  | VList "'f pyval list"

text \<open>The classes that can stand in a schema, and the vector data type of \<open>dtypes\<close>,
  which is an instance carrying its length.\<close>

datatype pytype =
    T_NoneType
  | T_bool
  | T_int
  | T_long
  | T_float
  | T_str
  | T_unicode
  | T_basestring
  | T_list
  | T_datetime
  | T_object

datatype data_type = Class pytype | Vector nat

text \<open>\<open>type(item)\<close>: the class of a value.\<close>

fun type_of :: "'f pyval \<Rightarrow> pytype" where
  "type_of VNone = T_NoneType"
| "type_of (VBool _) = T_bool"
| "type_of (VInt _) = T_int"
| "type_of (VLong _) = T_long"
| "type_of (VFloat _) = T_float"
| "type_of (VStr _) = T_str"
| "type_of (VUnicode _) = T_unicode"
| "type_of (VList _) = T_list"

text \<open>The subclass relation of Python 2 on these classes: \<open>bool\<close> derives from
  \<open>int\<close>, \<open>str\<close> and \<open>unicode\<close> from \<open>basestring\<close>, everything from
  \<open>object\<close>.\<close>

fun issubclass :: "pytype \<Rightarrow> pytype \<Rightarrow> bool" where
  "issubclass c T_object = True"
| "issubclass T_bool T_int = True"
| "issubclass T_str T_basestring = True"
| "issubclass T_unicode T_basestring = True"
| "issubclass c d = (c = d)"

definition isinstance :: "'f pyval \<Rightarrow> pytype \<Rightarrow> bool" where
  "isinstance v t = issubclass (type_of v) t"

section \<open>Exceptions\<close>

datatype py_error =
    TypeError string
  | ValueError string
  | RuntimeError string
  | IndexError string
  | Exception string

text \<open>\<open>"%s" % n\<close> for a non-negative integer: its decimal digits.\<close>

definition digit_char :: "nat \<Rightarrow> char" where
  "digit_char d = char_of (48 + d)"

function string_of_nat :: "nat \<Rightarrow> string" where
  "string_of_nat n =
     (if n < 10 then [digit_char n] else string_of_nat (n div 10) @ [digit_char (n mod 10)])"
  by pat_completeness auto
termination
  by (relation "measure (\<lambda>n. n)") auto

declare string_of_nat.simps [simp del]

text \<open>\<open>"%s" % data_type\<close> for a class: \<^verbatim>\<open><type 'int'>\<close> and so on.\<close>

fun type_name :: "pytype \<Rightarrow> string" where
  "type_name T_NoneType = ''NoneType''"
| "type_name T_bool = ''bool''"
| "type_name T_int = ''int''"
| "type_name T_long = ''long''"
| "type_name T_float = ''float''"
| "type_name T_str = ''str''"
| "type_name T_unicode = ''unicode''"
| "type_name T_basestring = ''basestring''"
| "type_name T_list = ''list''"
| "type_name T_datetime = ''datetime.datetime''"
| "type_name T_object = ''object''"

definition type_repr :: "pytype \<Rightarrow> string" where
  "type_repr t = ''<type '' @ [CHR 0x27] @ type_name t @ [CHR 0x27] @ ''>''"

text \<open>\<open>xs[i]\<close> raises IndexError out of range.\<close>

definition getitem :: "'a list \<Rightarrow> nat \<Rightarrow> py_error + 'a" where
  "getitem xs i =
     (if i < length xs then Inr (xs ! i) else Inl (IndexError ''list index out of range''))"

section \<open>The interpreter's conversions and the \<open>dtypes\<close> module\<close>

text \<open>
  \<open>int(x)\<close>, \<open>long(x)\<close>, \<open>float(x)\<close>, \<open>str(x)\<close>, \<open>unicode(x)\<close> belong to the
  interpreter; \<open>dtypes.vector(n).constructor\<close> and \<open>dtypes._DataTypes.merge_types\<close>
  belong to a module outside \<open>frame.py\<close>. They are parameters of the model. A
  conversion returns \<open>Some\<close> of the converted value, or \<open>None\<close> when the call raises;
  \<open>merge_types\<close> returns the merged type or the exception it raises. Every theorem
  below holds for all of them.
\<close>

record 'f lib =
  py_int :: "'f pyval \<Rightarrow> 'f pyval option"
  py_long :: "'f pyval \<Rightarrow> 'f pyval option"
  py_float :: "'f pyval \<Rightarrow> 'f pyval option"
  py_str :: "'f pyval \<Rightarrow> 'f pyval option"
  py_unicode :: "'f pyval \<Rightarrow> 'f pyval option"
  vector_constructor :: "nat \<Rightarrow> 'f pyval \<Rightarrow> 'f pyval option"
  dtypes_merge_types :: "data_type \<Rightarrow> data_type \<Rightarrow> py_error + data_type"

section \<open>Schemas\<close>

text \<open>
  A schema is a Python list. Its elements are \<open>(name, data_type)\<close> tuples, or bare
  column names when the caller gives only names; \<open>schema=None\<close> is \<open>None\<close>.
\<close>

datatype column = Name string | Col string data_type

type_synonym schema = "column list"

fun is_Name :: "column \<Rightarrow> bool" where
  "is_Name (Name _) = True"
| "is_Name (Col _ _) = False"

fun column_name :: "column \<Rightarrow> string" where
  "column_name (Name n) = n"
| "column_name (Col n _) = n"

section \<open>Schema inference: \<open>Frame._infer_types_for_row\<close>, \<open>_merge_types\<close>, \<open>_infer_schema\<close>\<close>

fun infer_type_of_item :: "'f pyval \<Rightarrow> data_type" where
  "infer_type_of_item (VList item) = Vector (length item)"
| "infer_type_of_item item = Class (type_of item)"

definition infer_types_for_row :: "'f pyval list \<Rightarrow> data_type list" where
  "infer_types_for_row row = map infer_type_of_item row"

definition merge_length_error :: "nat \<Rightarrow> nat \<Rightarrow> py_error" where
  "merge_length_error n m =
     ValueError (''Length of each row must be the same (found rows with lengths: ''
                 @ string_of_nat n @ '' and '' @ string_of_nat m @ '').'')"

text \<open>The loop of \<open>_merge_types\<close> over \<open>range(0, len(type_list_a))\<close>; it runs after the
  length check, on lists of one length.\<close>

fun merge_types_loop ::
  "'f lib \<Rightarrow> data_type list \<Rightarrow> data_type list \<Rightarrow> data_type list \<Rightarrow> py_error + data_type list" where
  "merge_types_loop l (a # type_list_a) (b # type_list_b) merged_types =
     (case dtypes_merge_types l a b of
        Inl e \<Rightarrow> Inl e
      | Inr merged_type \<Rightarrow> merge_types_loop l type_list_a type_list_b (merged_types @ [merged_type]))"
| "merge_types_loop l _ _ merged_types = Inr merged_types"

text \<open>Both arguments are lists by their type here, so the TypeError of the first test
  of \<open>_merge_types\<close> has no input.\<close>

definition merge_types :: "'f lib \<Rightarrow> data_type list \<Rightarrow> data_type list \<Rightarrow> py_error + data_type list" where
  "merge_types l type_list_a type_list_b =
     (if length type_list_a \<noteq> length type_list_b
      then Inl (merge_length_error (length type_list_a) (length type_list_b))
      else merge_types_loop l type_list_a type_list_b [])"

text \<open>The loop \<open>for i in range (1, sample_size)\<close> of \<open>_infer_schema\<close>, over the list of
  its indices.\<close>

fun merge_sample ::
  "'f lib \<Rightarrow> 'f pyval list list \<Rightarrow> nat list \<Rightarrow> data_type list \<Rightarrow> py_error + data_type list" where
  "merge_sample l data [] data_types = Inr data_types"
| "merge_sample l data (i # is) data_types =
     (case getitem data i of
        Inl e \<Rightarrow> Inl e
      | Inr row \<Rightarrow>
          (case merge_types l data_types (infer_types_for_row row) of
             Inl e \<Rightarrow> Inl e
           | Inr merged \<Rightarrow> merge_sample l data is merged))"

text \<open>The loop that names the columns: \<open>"C%s" % i\<close>, or \<open>column_names[i]\<close> when
  \<open>len(column_names) > i\<close>.\<close>

definition name_column :: "string list \<Rightarrow> nat \<times> data_type \<Rightarrow> column" where
  "name_column column_names p =
     (case p of (i, data_type) \<Rightarrow>
        Col (if length column_names > i then column_names ! i else ''C'' @ string_of_nat i)
            data_type)"

text \<open>\<open>data\<close> is a list by its type here, so the TypeError of \<open>_infer_schema\<close> for data
  that is not a list has no input. \<open>sample_size\<close> is a Python integer.\<close>

definition infer_schema ::
  "'f lib \<Rightarrow> 'f pyval list list \<Rightarrow> string list \<Rightarrow> int \<Rightarrow> py_error + schema" where
  "infer_schema l data column_names sample_size =
     (if length data > 0 then
        (let data_types = infer_types_for_row (data ! 0);
             sample_size = (if int (length data) < sample_size then int (length data)
                            else sample_size)
         in case merge_sample l data [1..<nat sample_size] data_types of
              Inl e \<Rightarrow> Inl e
            | Inr data_types \<Rightarrow> Inr (map (name_column column_names) (enumerate 0 data_types)))
      else Inr [])"

section \<open>Schema validation: \<open>Frame.validate_pyrdd_schema\<close>\<close>

text \<open>\<open>try: data.append(conv(...)) except: data.append(None)\<close>: the value appended.\<close>

definition try_append :: "'f pyval option \<Rightarrow> 'f pyval" where
  "try_append r = (case r of Some v \<Rightarrow> v | None \<Rightarrow> VNone)"

text \<open>The RuntimeError of the last \<open>else\<close> of the chain.\<close>

definition unsupported_type_error :: "pytype \<Rightarrow> py_error" where
  "unsupported_type_error t =
     RuntimeError (''Schema validation does not support data type: '' @ type_repr t)"

text \<open>
  The body of the loop over \<open>enumerate(schema)\<close> in the inner function
  \<open>validate_schema\<close>: the value appended to \<open>data\<close> for one column, or the exception
  that leaves the loop. In the vector branch \<open>row[index]\<close> is evaluated inside the
  \<open>try\<close>. For a bare column name, \<open>column[1]\<close> is the second character of the name
  (IndexError when there is none), which is no class: \<open>isinstance\<close> raises TypeError
  once \<open>row[index]\<close> has been read.
\<close>

fun validate_cell :: "'f lib \<Rightarrow> 'f pyval list \<Rightarrow> nat \<Rightarrow> column \<Rightarrow> py_error + 'f pyval" where
  "validate_cell l row index (Col name (Vector vector_length)) =
     Inr (try_append (case getitem row index of
                        Inl e \<Rightarrow> None
                      | Inr v \<Rightarrow> vector_constructor l vector_length v))"
| "validate_cell l row index (Col name (Class data_type)) =
     (case getitem row index of
        Inl e \<Rightarrow> Inl e
      | Inr v \<Rightarrow>
          if \<not> isinstance v data_type then
            if data_type = T_int then Inr (try_append (py_int l v))
            else if data_type = T_long then Inr (try_append (py_long l v))
            else if data_type = T_float then Inr (try_append (py_float l v))
            else if data_type = T_str then Inr (try_append (py_str l v))
            else if data_type = T_unicode then Inr (try_append (py_unicode l v))
            else Inl (unsupported_type_error data_type)
          else Inr v)"
| "validate_cell l row index (Name name) =
     (if length name < 2 then Inl (IndexError ''string index out of range'')
      else case getitem row index of
             Inl e \<Rightarrow> Inl e
           | Inr v \<Rightarrow> Inl (TypeError ''isinstance() arg 2 must be a class, type, or tuple of classes and types''))"

fun validate_columns ::
  "'f lib \<Rightarrow> 'f pyval list \<Rightarrow> (nat \<times> column) list \<Rightarrow> 'f pyval list \<Rightarrow> py_error + 'f pyval list" where
  "validate_columns l row [] data = Inr data"
| "validate_columns l row ((index, column) # rest) data =
     (case validate_cell l row index column of
        Inl e \<Rightarrow> Inl e
      | Inr v \<Rightarrow> validate_columns l row rest (data @ [v]))"

definition row_length_error :: "nat \<Rightarrow> nat \<Rightarrow> py_error" where
  "row_length_error n m =
     ValueError (''Length of the row ('' @ string_of_nat n
                 @ '') does not match the schema length ('' @ string_of_nat m @ '').'')"

definition validate_schema :: "'f lib \<Rightarrow> 'f pyval list \<Rightarrow> schema \<Rightarrow> py_error + 'f pyval list" where
  "validate_schema l row schema =
     (if length row \<noteq> length schema then Inl (row_length_error (length row) (length schema))
      else validate_columns l row (enumerate 0 schema) [])"

text \<open>
  A pyspark RDD of rows. \<open>map\<close> is lazy: it returns a new RDD at once and the function
  runs on a row only when an action consumes it. An RDD is therefore the list of its
  pending row computations, each the row or the exception its evaluation raises;
  \<open>collect\<close> is the action that consumes them in order and stops at the first
  exception.
\<close>

datatype 'f rdd = RDD "(py_error + 'f pyval list) list"

fun rdd_map :: "('f pyval list \<Rightarrow> py_error + 'f pyval list) \<Rightarrow> 'f rdd \<Rightarrow> 'f rdd" where
  "rdd_map f (RDD xs) = RDD (map (\<lambda>x. case x of Inl e \<Rightarrow> Inl e | Inr r \<Rightarrow> f r) xs)"

fun collect_list :: "(py_error + 'a) list \<Rightarrow> py_error + 'a list" where
  "collect_list [] = Inr []"
| "collect_list (Inl e # xs) = Inl e"
| "collect_list (Inr r # xs) =
     (case collect_list xs of Inl e \<Rightarrow> Inl e | Inr rs \<Rightarrow> Inr (r # rs))"

fun collect :: "'f rdd \<Rightarrow> py_error + 'f pyval list list" where
  "collect (RDD xs) = collect_list xs"

text \<open>\<open>sc.parallelize(data)\<close> of a list of rows.\<close>

definition parallelize :: "'f pyval list list \<Rightarrow> 'f rdd" where
  "parallelize data = RDD (map Inr data)"

text \<open>What the constructor can be given as \<open>source\<close>: a Scala frame or a Scala RDD (both
  references into the JVM), a pyspark RDD, or a Python list of rows.\<close>

type_synonym jref = nat

datatype 'f source =
    ScalaFrameSource jref
  | ScalaRddSource jref
  | PyRDD "'f rdd"
  | PyList "'f pyval list list"

definition validate_pyrdd_schema :: "'f lib \<Rightarrow> 'f source \<Rightarrow> schema \<Rightarrow> py_error + 'f rdd" where
  "validate_pyrdd_schema l pyrdd schema =
     (case pyrdd of
        PyRDD r \<Rightarrow> Inr (rdd_map (\<lambda>row. validate_schema l row schema) r)
      | _ \<Rightarrow> Inl (TypeError ''Unable to validate schema, because the pyrdd provided is not an RDD.''))"

section \<open>The JVM gateway\<close>

text \<open>
  The calls that leave the Python process: \<open>schema_to_scala\<close> and \<open>schema_to_python\<close>
  of \<open>sparktk.frame.schema\<close>, the two directions of \<open>PythonJavaRdd\<close>, the JVM
  constructor of the Scala frame, the \<open>schema()\<close> and \<open>rdd()\<close> methods of a Scala
  frame, and the pyspark constructor \<open>RDD(java_rdd, sc)\<close>. They are parameters of the
  model. Each runs on the state \<open>'w\<close> of the engine, may change it, and returns its
  result or the exception it raises.
\<close>

type_synonym ('a, 'w) jvm = "'w \<Rightarrow> (py_error + 'a) \<times> 'w"

record ('f, 'w) gateway =
  schema_to_scala :: "schema option \<Rightarrow> (jref, 'w) jvm"
  schema_to_python :: "jref \<Rightarrow> (schema, 'w) jvm"
  pythonToScala :: "'f rdd \<Rightarrow> jref \<Rightarrow> (jref, 'w) jvm"
  scalaToPython :: "jref \<Rightarrow> (jref, 'w) jvm"
  new_scala_Frame :: "jref \<Rightarrow> jref \<Rightarrow> (jref, 'w) jvm"
  scala_frame_schema :: "jref \<Rightarrow> (jref, 'w) jvm"
  scala_frame_rdd :: "jref \<Rightarrow> (jref, 'w) jvm"
  new_RDD :: "jref \<Rightarrow> ('f rdd, 'w) jvm"

definition return_jvm :: "'a \<Rightarrow> ('a, 'w) jvm" where
  "return_jvm a = (\<lambda>w. (Inr a, w))"

definition bind_jvm :: "('a, 'w) jvm \<Rightarrow> ('a \<Rightarrow> ('b, 'w) jvm) \<Rightarrow> ('b, 'w) jvm" where
  "bind_jvm m f = (\<lambda>w. case m w of (Inl e, w') \<Rightarrow> (Inl e, w') | (Inr a, w') \<Rightarrow> f a w')"

definition create_scala_frame :: "('f, 'w) gateway \<Rightarrow> jref \<Rightarrow> jref \<Rightarrow> (jref, 'w) jvm" where
  "create_scala_frame g scala_rdd scala_schema = new_scala_Frame g scala_rdd scala_schema"

section \<open>The class \<open>Frame\<close>\<close>

text \<open>What \<open>self._frame\<close> holds: a reference to a Scala frame, or a \<open>PythonFrame\<close> with its
  \<open>rdd\<close> and \<open>schema\<close> attributes.\<close>

datatype 'f frame_obj = ScalaFrame jref | PythonFrame "'f rdd" "schema option"

record 'f Frame =
  frame :: "'f frame_obj"

fun is_scala_frame :: "'f frame_obj \<Rightarrow> bool" where
  "is_scala_frame (ScalaFrame _) = True"
| "is_scala_frame (PythonFrame _ _) = False"

definition is_scala :: "'f Frame \<Rightarrow> bool" where
  "is_scala self = is_scala_frame (frame self)"

definition is_python :: "'f Frame \<Rightarrow> bool" where
  "is_python self = (\<not> is_scala self)"

subsection \<open>\<open>Frame.__init__\<close>\<close>

text \<open>Lines 31 to 34 of the constructor, reached with \<open>source\<close> an RDD:
  \<open>if schema and validate_schema\<close>
  (the parameter, here \<open>validate_flag\<close>) is false for \<open>None\<close> and for the empty list.\<close>

definition python_frame_init ::
  "'f lib \<Rightarrow> 'f rdd \<Rightarrow> schema option \<Rightarrow> bool \<Rightarrow> py_error + 'f Frame" where
  "python_frame_init l source schema validate_flag =
     (case schema of
        None \<Rightarrow> Inr \<lparr>frame = PythonFrame source schema\<rparr>
      | Some columns \<Rightarrow>
          if columns \<noteq> [] \<and> validate_flag then
            (case validate_pyrdd_schema l (PyRDD source) columns of
               Inl e \<Rightarrow> Inl e
             | Inr validated \<Rightarrow> Inr \<lparr>frame = PythonFrame validated schema\<rparr>)
          else Inr \<lparr>frame = PythonFrame source schema\<rparr>)"

text \<open>Lines 24 to 29: the schema of a source that is no RDD. A list whose items are
  all strings (the empty list too) is a list of column names.\<close>

definition resolve_schema :: "'f lib \<Rightarrow> 'f pyval list list \<Rightarrow> schema option \<Rightarrow> py_error + schema option" where
  "resolve_schema l source schema =
     (case schema of
        Some items \<Rightarrow>
          if list_all is_Name items then
            (case infer_schema l source (map column_name items) 100 of
               Inl e \<Rightarrow> Inl e
             | Inr inferred \<Rightarrow> Inr (Some inferred))
          else Inr schema
      | None \<Rightarrow>
          (case infer_schema l source [] 100 of
             Inl e \<Rightarrow> Inl e
           | Inr inferred \<Rightarrow> Inr (Some inferred)))"

definition Frame_init ::
  "('f, 'w) gateway \<Rightarrow> 'f lib \<Rightarrow> 'f source \<Rightarrow> schema option \<Rightarrow> bool \<Rightarrow> ('f Frame, 'w) jvm" where
  "Frame_init g l source schema validate_flag =
     (case source of
        ScalaFrameSource fr \<Rightarrow> return_jvm \<lparr>frame = ScalaFrame fr\<rparr>
      | ScalaRddSource scala_rdd \<Rightarrow>
          bind_jvm (schema_to_scala g schema) (\<lambda>scala_schema.
          bind_jvm (create_scala_frame g scala_rdd scala_schema) (\<lambda>fr.
          return_jvm \<lparr>frame = ScalaFrame fr\<rparr>))
      | PyRDD r \<Rightarrow> (\<lambda>w. (python_frame_init l r schema validate_flag, w))
      | PyList data \<Rightarrow>
          (\<lambda>w. case resolve_schema l data schema of
                  Inl e \<Rightarrow> (Inl e, w)
                | Inr schema' \<Rightarrow>
                    (python_frame_init l (parallelize data) schema' validate_flag, w)))"

subsection \<open>The properties \<open>_scala\<close> and \<open>_python\<close>\<close>

text \<open>
  A method runs on the object and the engine: it returns its value or the exception it
  raises, together with the object and the engine as it leaves them. An exception
  leaves the object as the statements before it made it.
\<close>

type_synonym ('a, 'f, 'w) action = "'f Frame \<times> 'w \<Rightarrow> (py_error + 'a) \<times> ('f Frame \<times> 'w)"

definition return_action :: "'a \<Rightarrow> ('a, 'f, 'w) action" where
  "return_action a = (\<lambda>s. (Inr a, s))"

definition bind_action :: "('a, 'f, 'w) action \<Rightarrow> ('a \<Rightarrow> ('b, 'f, 'w) action) \<Rightarrow> ('b, 'f, 'w) action" where
  "bind_action m f = (\<lambda>s. case m s of (Inl e, s') \<Rightarrow> (Inl e, s') | (Inr a, s') \<Rightarrow> f a s')"

text \<open>A gateway call: it does not touch the object.\<close>

definition call :: "('a, 'w) jvm \<Rightarrow> ('a, 'f, 'w) action" where
  "call m = (\<lambda>s. case s of (self, w) \<Rightarrow> (case m w of (r, w') \<Rightarrow> (r, (self, w'))))"

text \<open>Reading \<open>self._frame\<close> and the assignment \<open>self._frame = x\<close>.\<close>

definition get_frame :: "('f frame_obj, 'f, 'w) action" where
  "get_frame = (\<lambda>s. case s of (self, w) \<Rightarrow> (Inr (frame self), (self, w)))"

definition set_frame :: "'f frame_obj \<Rightarrow> (unit, 'f, 'w) action" where
  "set_frame x = (\<lambda>s. case s of (self, w) \<Rightarrow> (Inr (), (self\<lparr>frame := x\<rparr>, w)))"

definition scala :: "('f, 'w) gateway \<Rightarrow> ('f frame_obj, 'f, 'w) action" where
  "scala g =
     bind_action get_frame (\<lambda>fr.
       case fr of
         PythonFrame rdd schema \<Rightarrow>
           bind_action (call (schema_to_scala g schema)) (\<lambda>scala_schema.
           bind_action (call (pythonToScala g rdd scala_schema)) (\<lambda>scala_rdd.
           bind_action (call (create_scala_frame g scala_rdd scala_schema)) (\<lambda>created.
           bind_action (set_frame (ScalaFrame created)) (\<lambda>_.
           get_frame))))
       | ScalaFrame _ \<Rightarrow> get_frame)"

definition python :: "('f, 'w) gateway \<Rightarrow> ('f frame_obj, 'f, 'w) action" where
  "python g =
     bind_action get_frame (\<lambda>fr.
       case fr of
         ScalaFrame scala_frame \<Rightarrow>
           bind_action (call (scala_frame_schema g scala_frame)) (\<lambda>scala_schema.
           bind_action (call (scala_frame_rdd g scala_frame)) (\<lambda>scala_rdd.
           bind_action (call (scalaToPython g scala_rdd)) (\<lambda>java_rdd.
           bind_action (call (schema_to_python g scala_schema)) (\<lambda>python_schema.
           bind_action (call (new_RDD g java_rdd)) (\<lambda>python_rdd.
           bind_action (set_frame (PythonFrame python_rdd (Some python_schema))) (\<lambda>_.
           get_frame))))))
       | PythonFrame _ _ \<Rightarrow> get_frame)"

section \<open>Instances for running the model\<close>

text \<open>Integer types and vector types, for the merge rule below.\<close>

fun is_integer_type :: "data_type \<Rightarrow> bool" where
  "is_integer_type (Class T_int) = True"
| "is_integer_type (Class T_long) = True"
| "is_integer_type _ = False"

fun is_vector_type :: "data_type \<Rightarrow> bool" where
  "is_vector_type (Vector _) = True"
| "is_vector_type _ = False"

text \<open>
  Modelled from the spec: \<open>dtypes._DataTypes.merge_types\<close> is not among the sources.
  The specification gives its rules: identical types merge to themselves; Integer and
  Float merge to Float; vector types of differing lengths fail to merge; String is
  the fallback for types that are otherwise incompatible.
\<close>

definition spec_merge_types :: "data_type \<Rightarrow> data_type \<Rightarrow> py_error + data_type" where
  "spec_merge_types a b =
     (if a = b then Inr a
      else if (is_integer_type a \<and> b = Class T_float) \<or> (a = Class T_float \<and> is_integer_type b)
        then Inr (Class T_float)
      else if is_vector_type a \<and> is_vector_type b
        then Inl (Exception ''SchemaError: vector types of differing lengths'')
      else Inr (Class T_str))"

text \<open>
  A small stand-in for the interpreter, with rational numbers for floats. Its \<open>int\<close>
  and \<open>long\<close> read an optional sign and decimal digits, with white space around
  them, from a string, keep integers, truncate a float towards zero and raise on
  \<open>None\<close> and on lists; its \<open>float\<close> converts numbers and raises on everything else;
  its \<open>str\<close>, \<open>unicode\<close> and vector constructor convert only what needs no
  formatting. It serves to evaluate the model on concrete rows.
\<close>

definition is_space :: "char \<Rightarrow> bool" where
  "is_space c = (c \<in> set [CHR '' '', CHR 0x09, CHR 0x0A, CHR 0x0B, CHR 0x0C, CHR 0x0D])"

definition strip :: "string \<Rightarrow> string" where
  "strip s = rev (dropWhile is_space (rev (dropWhile is_space s)))"

definition digit_value :: "char \<Rightarrow> nat option" where
  "digit_value c =
     (let n = (of_char c :: nat) in if 48 \<le> n \<and> n \<le> 57 then Some (n - 48) else None)"

fun digits_value :: "string \<Rightarrow> nat \<Rightarrow> nat option" where
  "digits_value [] acc = Some acc"
| "digits_value (c # cs) acc =
     (case digit_value c of None \<Rightarrow> None | Some d \<Rightarrow> digits_value cs (10 * acc + d))"

definition parse_int :: "string \<Rightarrow> int option" where
  "parse_int s =
     (case strip s of
        [] \<Rightarrow> None
      | c # cs \<Rightarrow>
          if c = CHR ''-'' then
            (if cs = [] then None else map_option (\<lambda>n. - int n) (digits_value cs 0))
          else if c = CHR ''+'' then
            (if cs = [] then None else map_option int (digits_value cs 0))
          else map_option int (digits_value (c # cs) 0))"

definition maxint :: int where
  "maxint = 2 ^ 63 - 1"

definition int_or_long :: "int \<Rightarrow> 'f pyval" where
  "int_or_long i = (if - maxint - 1 \<le> i \<and> i \<le> maxint then VInt i else VLong i)"

definition truncate :: "rat \<Rightarrow> int" where
  "truncate q = (if 0 \<le> q then \<lfloor>q\<rfloor> else \<lceil>q\<rceil>)"

fun to_integer :: "rat pyval \<Rightarrow> int option" where
  "to_integer VNone = None"
| "to_integer (VBool x) = Some (if x then 1 else 0)"
| "to_integer (VInt i) = Some i"
| "to_integer (VLong i) = Some i"
| "to_integer (VFloat q) = Some (truncate q)"
| "to_integer (VStr s) = parse_int s"
| "to_integer (VUnicode s) = parse_int s"
| "to_integer (VList _) = None"

fun to_float :: "rat pyval \<Rightarrow> rat pyval option" where
  "to_float (VBool x) = Some (VFloat (if x then 1 else 0))"
| "to_float (VInt i) = Some (VFloat (of_int i))"
| "to_float (VLong i) = Some (VFloat (of_int i))"
| "to_float (VFloat q) = Some (VFloat q)"
| "to_float _ = None"

fun to_str :: "rat pyval \<Rightarrow> rat pyval option" where
  "to_str VNone = Some (VStr ''None'')"
| "to_str (VBool x) = Some (VStr (if x then ''True'' else ''False''))"
| "to_str (VStr s) = Some (VStr s)"
| "to_str _ = None"

fun to_unicode :: "rat pyval \<Rightarrow> rat pyval option" where
  "to_unicode VNone = Some (VUnicode ''None'')"
| "to_unicode (VBool x) = Some (VUnicode (if x then ''True'' else ''False''))"
| "to_unicode (VUnicode s) = Some (VUnicode s)"
| "to_unicode _ = None"

fun to_vector :: "nat \<Rightarrow> rat pyval \<Rightarrow> rat pyval option" where
  "to_vector n (VList xs) = (if length xs = n then Some (VList xs) else None)"
| "to_vector n _ = None"

definition example_lib :: "rat lib" where
  "example_lib =
     \<lparr>py_int = (\<lambda>v. map_option int_or_long (to_integer v)),
      py_long = (\<lambda>v. map_option VLong (to_integer v)),
      py_float = to_float,
      py_str = to_str,
      py_unicode = to_unicode,
      vector_constructor = to_vector,
      dtypes_merge_types = spec_merge_types\<rparr>"

text \<open>
  Two engines whose state is the number of gateway calls made so far. The first answers
  every call with a fresh reference; an RDD fetched from it is empty and its schemas
  have no columns. The second is the same engine, except that the transfer of rows in
  either direction raises.
\<close>

definition fresh :: "(jref, nat) jvm" where
  "fresh = (\<lambda>n. (Inr (Suc n), Suc n))"

definition counting_gateway :: "(rat, nat) gateway" where
  "counting_gateway =
     \<lparr>schema_to_scala = (\<lambda>schema. fresh),
      schema_to_python = (\<lambda>scala_schema n. (Inr [], Suc n)),
      pythonToScala = (\<lambda>rdd scala_schema. fresh),
      scalaToPython = (\<lambda>scala_rdd. fresh),
      new_scala_Frame = (\<lambda>scala_rdd scala_schema. fresh),
      scala_frame_schema = (\<lambda>scala_frame. fresh),
      scala_frame_rdd = (\<lambda>scala_frame. fresh),
      new_RDD = (\<lambda>java_rdd n. (Inr (RDD []), Suc n))\<rparr>"

definition failing_gateway :: "(rat, nat) gateway" where
  "failing_gateway =
     counting_gateway
       \<lparr>pythonToScala := (\<lambda>rdd scala_schema n. (Inl (Exception ''Py4JJavaError''), Suc n)),
        scalaToPython := (\<lambda>scala_rdd n. (Inl (Exception ''Py4JJavaError''), Suc n))\<rparr>"

section \<open>Notions used in the statements\<close>

text \<open>The columns whose declared type has a branch that casts: a vector, or one of the
  classes \<open>int\<close>, \<open>long\<close>, \<open>float\<close>, \<open>str\<close>, \<open>unicode\<close> of the \<open>if\<close> chain.\<close>

definition cast_classes :: "pytype set" where
  "cast_classes = {T_int, T_long, T_float, T_str, T_unicode}"

fun castable_column :: "column \<Rightarrow> bool" where
  "castable_column (Col _ (Vector _)) = True"
| "castable_column (Col _ (Class t)) = (t \<in> cast_classes)"
| "castable_column (Name _) = False"

text \<open>The value is already an instance of the column's declared class (a vector column
  always goes through the vector constructor).\<close>

fun already_matches :: "'f pyval \<Rightarrow> column \<Rightarrow> bool" where
  "already_matches v (Col _ (Class t)) = isinstance v t"
| "already_matches v _ = False"

text \<open>The conversion the validator calls for a column; \<open>None\<close> is a cast that raises.
  A column with no cast has none that succeeds.\<close>

fun cast_value :: "'f lib \<Rightarrow> column \<Rightarrow> 'f pyval \<Rightarrow> 'f pyval option" where
  "cast_value l (Col _ (Vector n)) v = vector_constructor l n v"
| "cast_value l (Col _ (Class t)) v =
     (if t = T_int then py_int l v
      else if t = T_long then py_long l v
      else if t = T_float then py_float l v
      else if t = T_str then py_str l v
      else if t = T_unicode then py_unicode l v
      else None)"
| "cast_value l (Name _) v = None"

text \<open>
  Schema inference as the specification words it: the type list of row 0 is the
  running list, and the type list of each further sampled row is merged into it.
\<close>

fun merge_rows :: "'f lib \<Rightarrow> data_type list \<Rightarrow> data_type list list \<Rightarrow> py_error + data_type list" where
  "merge_rows l running [] = Inr running"
| "merge_rows l running (types # rest) =
     (case merge_types l running types of
        Inl e \<Rightarrow> Inl e
      | Inr merged \<Rightarrow> merge_rows l merged rest)"

text \<open>The number of rows that take part in the inference of a non-empty list: row 0
  always does.\<close>

definition sampled :: "int \<Rightarrow> nat \<Rightarrow> nat" where
  "sampled sample_size n = nat (max 1 (min sample_size (int n)))"

text \<open>\<open>min(sample_size, len(data))\<close>, the bound of the sample as the specification words
  it.\<close>

definition sample_bound :: "int \<Rightarrow> nat \<Rightarrow> nat" where
  "sample_bound sample_size n = nat (min sample_size (int n))"

definition spec_infer_schema ::
  "'f lib \<Rightarrow> 'f pyval list list \<Rightarrow> string list \<Rightarrow> int \<Rightarrow> py_error + schema" where
  "spec_infer_schema l data column_names sample_size =
     (case map infer_types_for_row (take (sampled sample_size (length data)) data) of
        [] \<Rightarrow> Inr []
      | row0 # others \<Rightarrow>
          (case merge_rows l row0 others of
             Inl e \<Rightarrow> Inl e
           | Inr types \<Rightarrow> Inr (map (name_column column_names) (enumerate 0 types))))"

text \<open>The exchanges with the engine that promote and demote a frame, as gateway calls
  alone: the first call that raises ends the exchange with its exception.\<close>

definition promote_exchange :: "('f, 'w) gateway \<Rightarrow> 'f rdd \<Rightarrow> schema option \<Rightarrow> (jref, 'w) jvm" where
  "promote_exchange g rdd schema =
     bind_jvm (schema_to_scala g schema) (\<lambda>scala_schema.
     bind_jvm (pythonToScala g rdd scala_schema) (\<lambda>scala_rdd.
     new_scala_Frame g scala_rdd scala_schema))"

definition demote_exchange :: "('f, 'w) gateway \<Rightarrow> jref \<Rightarrow> ('f rdd \<times> schema, 'w) jvm" where
  "demote_exchange g scala_frame =
     bind_jvm (scala_frame_schema g scala_frame) (\<lambda>scala_schema.
     bind_jvm (scala_frame_rdd g scala_frame) (\<lambda>scala_rdd.
     bind_jvm (scalaToPython g scala_rdd) (\<lambda>java_rdd.
     bind_jvm (schema_to_python g scala_schema) (\<lambda>python_schema.
     bind_jvm (new_RDD g java_rdd) (\<lambda>python_rdd.
     return_jvm (python_rdd, python_schema))))))"

section \<open>Properties of schema validation\<close>

lemma validate_columns_Inr:
  "validate_columns l row es acc = Inr data \<longleftrightarrow>
     (\<exists>vs. data = acc @ vs \<and> length vs = length es \<and>
        (\<forall>j<length es. validate_cell l row (fst (es ! j)) (snd (es ! j)) = Inr (vs ! j)))"
proof (induction es arbitrary: acc)
  case Nil
  then show ?case by auto
next
  case (Cons p es)
  obtain index column where p: "p = (index, column)" by (cases p)
  show ?case
  proof (cases "validate_cell l row index column")
    case (Inl e)
    then show ?thesis using p by (auto simp: nth_Cons split: nat.splits) 
  next
    case (Inr v)
    have "(\<exists>vs. data = (acc @ [v]) @ vs \<and> length vs = length es \<and>
        (\<forall>j<length es. validate_cell l row (fst (es ! j)) (snd (es ! j)) = Inr (vs ! j)))
      \<longleftrightarrow> (\<exists>ws. data = acc @ ws \<and> length ws = length (p # es) \<and>
        (\<forall>j<length (p # es). validate_cell l row (fst ((p # es) ! j)) (snd ((p # es) ! j)) = Inr (ws ! j)))"
      (is "?L \<longleftrightarrow> ?R")
    proof
      assume ?L
      then obtain vs where vs: "data = (acc @ [v]) @ vs" "length vs = length es"
        "\<forall>j<length es. validate_cell l row (fst (es ! j)) (snd (es ! j)) = Inr (vs ! j)" by blast
      have "\<forall>j<length (p # es). validate_cell l row (fst ((p # es) ! j)) (snd ((p # es) ! j)) = Inr ((v # vs) ! j)"
        using vs(3) Inr p by (auto simp: nth_Cons split: nat.splits)
      then show ?R using vs(1,2) by (intro exI[of _ "v # vs"]) simp
    next
      assume ?R
      then obtain ws where ws: "data = acc @ ws" "length ws = length (p # es)"
        "\<forall>j<length (p # es). validate_cell l row (fst ((p # es) ! j)) (snd ((p # es) ! j)) = Inr (ws ! j)" by blast
      then obtain w vs where wv: "ws = w # vs" by (cases ws) auto
      have "w = v" using ws(3) wv Inr p by force
      moreover have "\<forall>j<length es. validate_cell l row (fst (es ! j)) (snd (es ! j)) = Inr (vs ! j)"
        using ws(3) wv by fastforce
      ultimately show ?L using ws(1,2) wv by (intro exI[of _ vs]) simp
    qed
    then show ?thesis using Cons.IH[of "acc @ [v]"] Inr p by simp
  qed
qed

lemma validate_schema_Inr:
  "validate_schema l row schema = Inr data \<longleftrightarrow>
     length row = length schema \<and> length data = length schema \<and>
     (\<forall>j<length schema. validate_cell l row j (schema ! j) = Inr (data ! j))"
  by (auto simp: validate_schema_def validate_columns_Inr nth_enumerate_eq)

lemma validate_columns_Inl:
  "validate_columns l row es acc = Inl e \<longleftrightarrow>
     (\<exists>j<length es. validate_cell l row (fst (es ! j)) (snd (es ! j)) = Inl e \<and>
        (\<forall>i<j. \<exists>v. validate_cell l row (fst (es ! i)) (snd (es ! i)) = Inr v))"
proof (induction es arbitrary: acc)
  case Nil
  then show ?case by auto
next
  case (Cons p es)
  obtain index column where p: "p = (index, column)" by (cases p)
  show ?case
  proof (cases "validate_cell l row index column")
    case (Inl e')
    show ?thesis
    proof
      assume "validate_columns l row (p # es) acc = Inl e"
      then have "e' = e" using Inl p by simp
      then show "\<exists>j<length (p # es). validate_cell l row (fst ((p # es) ! j)) (snd ((p # es) ! j)) = Inl e \<and>
        (\<forall>i<j. \<exists>v. validate_cell l row (fst ((p # es) ! i)) (snd ((p # es) ! i)) = Inr v)"
        using Inl p by (intro exI[of _ 0]) simp
    next
      assume "\<exists>j<length (p # es). validate_cell l row (fst ((p # es) ! j)) (snd ((p # es) ! j)) = Inl e \<and>
        (\<forall>i<j. \<exists>v. validate_cell l row (fst ((p # es) ! i)) (snd ((p # es) ! i)) = Inr v)"
      then obtain j where j: "j < length (p # es)"
        "validate_cell l row (fst ((p # es) ! j)) (snd ((p # es) ! j)) = Inl e"
        "\<forall>i<j. \<exists>v. validate_cell l row (fst ((p # es) ! i)) (snd ((p # es) ! i)) = Inr v" by blast
      have "j = 0"
      proof (rule ccontr)
        assume "j \<noteq> 0"
        then have "\<exists>v. validate_cell l row (fst ((p # es) ! 0)) (snd ((p # es) ! 0)) = Inr v"
          using j(3) by blast
        then show False using Inl p by simp
      qed
      then show "validate_columns l row (p # es) acc = Inl e" using j(2) Inl p by simp
    qed
  next
    case (Inr v)
    have "(\<exists>j<length es. validate_cell l row (fst (es ! j)) (snd (es ! j)) = Inl e \<and>
        (\<forall>i<j. \<exists>v. validate_cell l row (fst (es ! i)) (snd (es ! i)) = Inr v))
      \<longleftrightarrow> (\<exists>j<length (p # es). validate_cell l row (fst ((p # es) ! j)) (snd ((p # es) ! j)) = Inl e \<and>
        (\<forall>i<j. \<exists>v. validate_cell l row (fst ((p # es) ! i)) (snd ((p # es) ! i)) = Inr v))"
      (is "?L \<longleftrightarrow> ?R")
    proof
      assume ?L
      then obtain j where j: "j < length es" "validate_cell l row (fst (es ! j)) (snd (es ! j)) = Inl e"
        "\<forall>i<j. \<exists>v. validate_cell l row (fst (es ! i)) (snd (es ! i)) = Inr v" by blast
      have "\<forall>i<Suc j. \<exists>v. validate_cell l row (fst ((p # es) ! i)) (snd ((p # es) ! i)) = Inr v"
        using j(3) Inr p by (auto simp: nth_Cons split: nat.splits)
      then show ?R using j(1,2) by (intro exI[of _ "Suc j"]) simp
    next
      assume ?R
      then obtain j where j: "j < length (p # es)"
        "validate_cell l row (fst ((p # es) ! j)) (snd ((p # es) ! j)) = Inl e"
        "\<forall>i<j. \<exists>v. validate_cell l row (fst ((p # es) ! i)) (snd ((p # es) ! i)) = Inr v" by blast
      have "j \<noteq> 0"
      proof
        assume "j = 0"
        then show False using j(2) Inr p by simp
      qed
      then obtain k where k: "j = Suc k" by (cases j) auto
      have "\<forall>i<k. \<exists>v. validate_cell l row (fst (es ! i)) (snd (es ! i)) = Inr v"
        using j(3) k by fastforce
      then show ?L using j(1,2) k by (intro exI[of _ k]) simp
    qed
    then show ?thesis using Cons.IH[of "acc @ [v]"] Inr p by simp
  qed
qed

lemma validate_schema_Inl:
  "validate_schema l row schema = Inl e \<longleftrightarrow>
     (if length row \<noteq> length schema then e = row_length_error (length row) (length schema)
      else \<exists>j<length schema. validate_cell l row j (schema ! j) = Inl e \<and>
        (\<forall>i<j. \<exists>v. validate_cell l row i (schema ! i) = Inr v))"
  by (auto simp: validate_schema_def validate_columns_Inl nth_enumerate_eq)


lemma validate_cell_castable:
  assumes "castable_column c" and "i < length row"
  shows "validate_cell l row i c =
           Inr (if already_matches (row ! i) c then row ! i
                else try_append (cast_value l c (row ! i)))"
proof (cases c)
  case (Name n)
  then show ?thesis using assms by simp
next
  case (Col n dt)
  show ?thesis
  proof (cases dt)
    case (Class t)
    then show ?thesis using assms Col
      by (auto simp: getitem_def cast_classes_def)
  next
    case (Vector k)
    then show ?thesis using assms Col by (simp add: getitem_def)
  qed
qed

lemma validate_cell_result:
  assumes "validate_cell l row i c = Inr v" and "i < length row"
  shows "(already_matches (row ! i) c \<and> v = row ! i)
         \<or> (\<not> already_matches (row ! i) c \<and> v = try_append (cast_value l c (row ! i)))"
proof (cases c)
  case (Name n)
  then show ?thesis using assms by (simp add: getitem_def split: if_splits)
next
  case (Col n dt)
  show ?thesis
  proof (cases dt)
    case (Class t)
    then show ?thesis using assms Col
      by (auto simp: getitem_def split: if_splits)
  next
    case (Vector k)
    then show ?thesis using assms Col by (auto simp: getitem_def)
  qed
qed

lemma validate_cell_unsupported:
  assumes "i < length row"
  shows "validate_cell l row i c = Inl (RuntimeError msg) \<longleftrightarrow>
           (\<exists>name t. c = Col name (Class t) \<and> t \<notin> cast_classes \<and> \<not> isinstance (row ! i) t
                      \<and> RuntimeError msg = unsupported_type_error t)"
proof (cases c)
  case (Name n)
  then show ?thesis using assms by (simp add: getitem_def)
next
  case (Col n dt)
  show ?thesis
  proof (cases dt)
    case (Class t)
    then show ?thesis using assms Col
      by (auto simp: getitem_def cast_classes_def unsupported_type_error_def)
  next
    case (Vector k)
    then show ?thesis using Col by simp
  qed
qed

lemma collect_list_Inl_mem:
  "Inl e \<in> set xs \<Longrightarrow> \<exists>e'. collect_list xs = Inl e'"
proof (induction xs)
  case Nil
  then show ?case by simp
next
  case (Cons x xs)
  show ?case
  proof (cases x)
    case (Inl a)
    then show ?thesis by simp
  next
    case (Inr r)
    then have "Inl e \<in> set xs" using Cons.prems by auto
    then obtain e' where "collect_list xs = Inl e'" using Cons.IH by blast
    then show ?thesis using Inr by simp
  qed
qed

lemma collect_list_first_error:
  "collect_list (map Inr pre @ Inl e # post) = Inl e"
  by (induction pre) auto

lemma collect_list_all_Inr:
  "collect_list (map Inr rows) = Inr rows"
  by (induction rows) auto

text \<open>
  C1, as stated, fails. The call that installs a schema with the column type
  \<open>datetime\<close> on an RDD returns the mapped RDD: nothing is raised at the call, and the
  RuntimeError waits in the pending row until the row is consumed; on an empty RDD it
  is never raised. The set of cast targets of the code does not hold \<open>bool\<close> either: a
  string in a column declared \<open>bool\<close> raises the same unsupported-type error.
\<close>

theorem unsupported_type_counterexample:
  "validate_pyrdd_schema example_lib (PyRDD (parallelize [[VStr ''2016-01-01'']]))
       [Col ''d'' (Class T_datetime)]
     = Inr (RDD [Inl (RuntimeError
         ''Schema validation does not support data type: <type 'datetime.datetime'>'')])
   \<and> validate_pyrdd_schema example_lib (PyRDD (parallelize [])) [Col ''d'' (Class T_datetime)]
     = Inr (RDD [])
   \<and> validate_schema example_lib [VStr ''abc''] [Col ''a'' (Class T_bool)]
     = Inl (RuntimeError ''Schema validation does not support data type: <type 'bool'>'')"
  by code_simp

text \<open>
  C1, amended. On an RDD, \<open>validate_pyrdd_schema\<close> raises nothing for any schema: it
  returns the RDD mapped with the row validator. The unsupported-type error is the
  RuntimeError of the row validator, raised when a row is consumed, and exactly when
  the row has the arity of the schema and the first column whose cell fails is declared
  with a class other than \<open>int\<close>, \<open>long\<close>, \<open>float\<close>, \<open>str\<close>, \<open>unicode\<close> while the
  cell is not an instance of that class. A vector column never raises it.
\<close>

theorem unsupported_type_raised_on_consumption:
  "(\<forall>r. validate_pyrdd_schema l (PyRDD r) schema
          = Inr (rdd_map (\<lambda>row. validate_schema l row schema) r))
   \<and> (validate_schema l row schema = Inl (RuntimeError msg) \<longleftrightarrow>
        length row = length schema \<and>
        (\<exists>i<length schema. \<exists>name t.
            schema ! i = Col name (Class t) \<and> t \<notin> cast_classes \<and> \<not> isinstance (row ! i) t
            \<and> RuntimeError msg = unsupported_type_error t
            \<and> (\<forall>j<i. \<exists>v. validate_cell l row j (schema ! j) = Inr v)))"
proof -
  have one: "\<forall>r. validate_pyrdd_schema l (PyRDD r) schema
                  = Inr (rdd_map (\<lambda>row. validate_schema l row schema) r)"
    by (simp add: validate_pyrdd_schema_def)
  have two: "validate_schema l row schema = Inl (RuntimeError msg) \<longleftrightarrow>
        length row = length schema \<and>
        (\<exists>i<length schema. \<exists>name t.
            schema ! i = Col name (Class t) \<and> t \<notin> cast_classes \<and> \<not> isinstance (row ! i) t
            \<and> RuntimeError msg = unsupported_type_error t
            \<and> (\<forall>j<i. \<exists>v. validate_cell l row j (schema ! j) = Inr v))"
  proof (cases "length row = length schema")
    case False
    then show ?thesis by (simp add: validate_schema_Inl row_length_error_def)
  next
    case True
    have cell: "validate_cell l row i (schema ! i) = Inl (RuntimeError msg) \<longleftrightarrow>
           (\<exists>name t. schema ! i = Col name (Class t) \<and> t \<notin> cast_classes
                      \<and> \<not> isinstance (row ! i) t
                      \<and> RuntimeError msg = unsupported_type_error t)"
      if "i < length schema" for i
      using that True by (intro validate_cell_unsupported) simp
    have "(\<exists>j<length schema. validate_cell l row j (schema ! j) = Inl (RuntimeError msg) \<and>
             (\<forall>i<j. \<exists>v. validate_cell l row i (schema ! i) = Inr v))
          \<longleftrightarrow> (\<exists>i<length schema. \<exists>name t.
            schema ! i = Col name (Class t) \<and> t \<notin> cast_classes \<and> \<not> isinstance (row ! i) t
            \<and> RuntimeError msg = unsupported_type_error t
            \<and> (\<forall>j<i. \<exists>v. validate_cell l row j (schema ! j) = Inr v))"
      (is "?L \<longleftrightarrow> ?R")
    proof
      assume ?L
      then obtain j where j: "j < length schema"
        "validate_cell l row j (schema ! j) = Inl (RuntimeError msg)"
        "\<forall>i<j. \<exists>v. validate_cell l row i (schema ! i) = Inr v" by blast
      from cell [OF j(1)] j(2) obtain name t where
        "schema ! j = Col name (Class t)" "t \<notin> cast_classes" "\<not> isinstance (row ! j) t"
        "RuntimeError msg = unsupported_type_error t" by blast
      with j(1,3) show ?R by blast
    next
      assume ?R
      then obtain i name t where i: "i < length schema"
        "schema ! i = Col name (Class t)" "t \<notin> cast_classes" "\<not> isinstance (row ! i) t"
        "RuntimeError msg = unsupported_type_error t"
        "\<forall>j<i. \<exists>v. validate_cell l row j (schema ! j) = Inr v" by blast
      have "validate_cell l row i (schema ! i) = Inl (RuntimeError msg)"
        using cell [OF i(1)] i(2,3,4,5) by blast
      with i(1,6) show ?L by blast
    qed
    then show ?thesis using True by (simp add: validate_schema_Inl)
  qed
  from one two show ?thesis by blast
qed

theorem unsupported_type_raised_on_consumption_witness:
  "validate_pyrdd_schema example_lib (PyRDD (parallelize [[VInt 1, VStr ''abc'']]))
       [Col ''n'' (Class T_int), Col ''a'' (Class T_bool)]
     = Inr (rdd_map (\<lambda>row. validate_schema example_lib row
                               [Col ''n'' (Class T_int), Col ''a'' (Class T_bool)])
                    (parallelize [[VInt 1, VStr ''abc'']]))
   \<and> length [VInt 1, VStr ''abc'' :: rat pyval]
       = length [Col ''n'' (Class T_int), Col ''a'' (Class T_bool)]
   \<and> (1::nat) < length [Col ''n'' (Class T_int), Col ''a'' (Class T_bool)]
   \<and> T_bool \<notin> cast_classes
   \<and> \<not> isinstance (VStr ''abc'' :: rat pyval) T_bool
   \<and> validate_schema example_lib [VInt 1, VStr ''abc'']
         [Col ''n'' (Class T_int), Col ''a'' (Class T_bool)]
       = Inl (unsupported_type_error T_bool)"
proof -
  let ?schema = "[Col ''n'' (Class T_int), Col ''a'' (Class T_bool)]"
  let ?row = "[VInt 1, VStr ''abc'' :: rat pyval]"
  obtain msg where msg: "unsupported_type_error T_bool = RuntimeError msg"
    by (simp add: unsupported_type_error_def)
  note inst = unsupported_type_raised_on_consumption [of example_lib ?schema ?row msg]
  have a: "validate_pyrdd_schema example_lib (PyRDD (parallelize [?row])) ?schema
             = Inr (rdd_map (\<lambda>row. validate_schema example_lib row ?schema) (parallelize [?row]))"
    using inst by blast
  have h1: "length ?row = length ?schema" by simp
  have h2: "(1::nat) < length ?schema" by simp
  have h3: "T_bool \<notin> cast_classes" by (simp add: cast_classes_def)
  have h4: "\<not> isinstance (VStr ''abc'' :: rat pyval) T_bool" by (simp add: isinstance_def)
  have h5: "\<forall>j<(1::nat). \<exists>v. validate_cell example_lib ?row j (?schema ! j) = Inr v"
    by (simp add: getitem_def isinstance_def)
  have "\<exists>i<length ?schema. \<exists>name t.
            ?schema ! i = Col name (Class t) \<and> t \<notin> cast_classes \<and> \<not> isinstance (?row ! i) t
            \<and> RuntimeError msg = unsupported_type_error t
            \<and> (\<forall>j<i. \<exists>v. validate_cell example_lib ?row j (?schema ! j) = Inr v)"
    using h2 h3 h4 h5 msg by (intro exI [of _ 1]) simp
  then have "validate_schema example_lib ?row ?schema = Inl (RuntimeError msg)"
    using inst h1 by blast
  then show ?thesis using a h1 h2 h3 h4 msg by simp
qed

text \<open>
  C2, as stated, fails for a column declared \<open>bool\<close>, which the specification counts
  among the supported cast targets: the string \<open>"abc"\<close> is no instance of \<open>bool\<close>,
  the chain has no branch for \<open>bool\<close>, and the row function raises the RuntimeError
  instead of appending \<open>None\<close>.
\<close>

theorem bool_column_counterexample:
  "length [VStr ''abc'' :: rat pyval] = length [Col ''a'' (Class T_bool)]
   \<and> \<not> isinstance (VStr ''abc'' :: rat pyval) T_bool
   \<and> validate_schema example_lib [VStr ''abc''] [Col ''a'' (Class T_bool)]
     = Inl (RuntimeError ''Schema validation does not support data type: <type 'bool'>'')"
  by code_simp

lemma validate_cell_castable_or_matching:
  assumes "castable_column c \<or> already_matches (row ! i) c" and "i < length row"
  shows "validate_cell l row i c =
           Inr (if already_matches (row ! i) c then row ! i
                else try_append (cast_value l c (row ! i)))"
proof (cases "castable_column c")
  case True
  then show ?thesis using assms(2) by (rule validate_cell_castable)
next
  case False
  then have m: "already_matches (row ! i) c" using assms(1) by blast
  have "\<exists>name t. c = Col name (Class t) \<and> isinstance (row ! i) t"
  proof (cases c)
    case (Name n)
    then show ?thesis using m by simp
  next
    case (Col n dt)
    then show ?thesis using m by (cases dt) simp_all
  qed
  then obtain name t where c: "c = Col name (Class t)" "isinstance (row ! i) t" by blast
  then show ?thesis using assms(2) by (simp add: getitem_def)
qed

text \<open>
  C2, amended. For a row whose arity is the length of the schema and each of whose
  cells either is already an instance of the class its column declares, or stands in
  a column declared \<open>int\<close>, \<open>long\<close>, \<open>float\<close>, \<open>str\<close>, \<open>unicode\<close> or a vector,
  \<open>validate_schema\<close> returns a row and raises nothing: a value that is already an
  instance is kept, a value whose cast raises becomes \<open>None\<close>, and any other value is
  replaced by the result of its cast. With the schema \<open>[("a", int)]\<close> and the row
  \<open>["abc"]\<close> the result is \<open>[None]\<close>. A column declared \<open>bool\<close> has no cast: a value
  in it that is no boolean raises.
\<close>

theorem cast_failure_nulls_the_cell:
  assumes "length row = length schema"
    and "\<forall>i<length schema. castable_column (schema ! i) \<or> already_matches (row ! i) (schema ! i)"
  shows "\<exists>data. validate_schema l row schema = Inr data \<and> length data = length schema \<and>
           (\<forall>i<length schema.
              (already_matches (row ! i) (schema ! i) \<longrightarrow> data ! i = row ! i) \<and>
              (\<not> already_matches (row ! i) (schema ! i) \<longrightarrow>
                 (case cast_value l (schema ! i) (row ! i) of
                    None \<Rightarrow> data ! i = VNone
                  | Some v \<Rightarrow> data ! i = v)))"
proof -
  define cell where "cell i = (if already_matches (row ! i) (schema ! i) then row ! i
                               else try_append (cast_value l (schema ! i) (row ! i)))" for i
  define data where "data = map cell [0..<length schema]"
  have len: "length data = length schema" by (simp add: data_def)
  have cells: "validate_cell l row j (schema ! j) = Inr (data ! j)" if "j < length schema" for j
  proof -
    have "castable_column (schema ! j) \<or> already_matches (row ! j) (schema ! j)"
      using assms(2) that by blast
    moreover have "j < length row" using assms(1) that by simp
    ultimately show ?thesis using that
      by (simp add: validate_cell_castable_or_matching data_def cell_def)
  qed
  have run: "validate_schema l row schema = Inr data"
    using assms(1) len cells by (simp add: validate_schema_Inr)
  have "\<forall>i<length schema.
          (already_matches (row ! i) (schema ! i) \<longrightarrow> data ! i = row ! i) \<and>
          (\<not> already_matches (row ! i) (schema ! i) \<longrightarrow>
             (case cast_value l (schema ! i) (row ! i) of
                None \<Rightarrow> data ! i = VNone
              | Some v \<Rightarrow> data ! i = v))"
    by (simp add: data_def cell_def try_append_def split: option.splits)
  with run len show ?thesis by blast
qed

theorem cast_failure_nulls_the_cell_witness:
  "length [VStr ''abc'' :: rat pyval] = length [Col ''a'' (Class T_int)]
   \<and> castable_column (Col ''a'' (Class T_int))
   \<and> \<not> already_matches (VStr ''abc'' :: rat pyval) (Col ''a'' (Class T_int))
   \<and> cast_value example_lib (Col ''a'' (Class T_int)) (VStr ''abc'') = None
   \<and> validate_schema example_lib [VStr ''abc''] [Col ''a'' (Class T_int)] = Inr [VNone]
   \<and> length [VStr ''abc'', VBool True :: rat pyval]
       = length [Col ''a'' (Class T_int), Col ''b'' (Class T_bool)]
   \<and> already_matches (VBool True :: rat pyval) (Col ''b'' (Class T_bool))
   \<and> validate_schema example_lib [VStr ''abc'', VBool True]
         [Col ''a'' (Class T_int), Col ''b'' (Class T_bool)]
       = Inr [VNone, VBool True]"
proof -
  let ?s1 = "[Col ''a'' (Class T_int)]"
  let ?r1 = "[VStr ''abc'' :: rat pyval]"
  let ?s2 = "[Col ''a'' (Class T_int), Col ''b'' (Class T_bool)]"
  let ?r2 = "[VStr ''abc'', VBool True :: rat pyval]"
  have h1: "length ?r1 = length ?s1" by simp
  have h2: "castable_column (Col ''a'' (Class T_int))" by (simp add: cast_classes_def)
  have h3: "\<not> already_matches (VStr ''abc'' :: rat pyval) (Col ''a'' (Class T_int))"
    by (simp add: isinstance_def)
  have h4: "cast_value example_lib (Col ''a'' (Class T_int)) (VStr ''abc'') = None"
    by code_simp
  have h5: "\<forall>i<length ?s1. castable_column (?s1 ! i) \<or> already_matches (?r1 ! i) (?s1 ! i)"
    using h2 by simp
  obtain d1 where d1: "validate_schema example_lib ?r1 ?s1 = Inr d1" "length d1 = 1" "d1 ! 0 = VNone"
    using cast_failure_nulls_the_cell [OF h1 h5, of example_lib] h3 h4 by auto
  have e1: "d1 = [VNone]" using d1(2,3) by (cases d1) auto
  have g1: "length ?r2 = length ?s2" by simp
  have g2: "already_matches (VBool True :: rat pyval) (Col ''b'' (Class T_bool))"
    by (simp add: isinstance_def)
  have g3: "\<forall>i<length ?s2. castable_column (?s2 ! i) \<or> already_matches (?r2 ! i) (?s2 ! i)"
    using h2 g2 by (simp add: nth_Cons less_Suc_eq split: nat.splits)
  obtain d2 where d2: "validate_schema example_lib ?r2 ?s2 = Inr d2" "length d2 = length ?s2"
    and cells: "\<forall>i<length ?s2.
              (already_matches (?r2 ! i) (?s2 ! i) \<longrightarrow> d2 ! i = ?r2 ! i) \<and>
              (\<not> already_matches (?r2 ! i) (?s2 ! i) \<longrightarrow>
                 (case cast_value example_lib (?s2 ! i) (?r2 ! i) of
                    None \<Rightarrow> d2 ! i = VNone
                  | Some v \<Rightarrow> d2 ! i = v))"
    using cast_failure_nulls_the_cell [OF g1 g3, of example_lib] by blast
  have "d2 ! 0 = VNone" using cells h3 h4 by (elim allE [of _ 0]) simp
  moreover have "d2 ! 1 = VBool True" using cells g2 by (elim allE [of _ 1]) simp
  moreover have "length d2 = 2" using d2(2) by simp
  ultimately have e2: "d2 = [VNone, VBool True]"
    by (cases d2; cases "tl d2") auto
  from h1 h2 h3 h4 d1(1) e1 g1 g2 d2(1) e2 show ?thesis by simp
qed

text \<open>
  C3. A row whose arity differs from the length of the schema makes \<open>validate_schema\<close>
  raise the ValueError on the two lengths. Collecting a validated RDD that holds such a
  row raises, and when the rows before it validate, what is raised is the
  ValueError of that row: no row after it is returned.
\<close>

theorem arity_mismatch_raises:
  assumes "length row \<noteq> length schema"
  shows "validate_schema l row schema = Inl (row_length_error (length row) (length schema))
         \<and> (\<forall>xs. Inr row \<in> set xs \<longrightarrow>
               (\<exists>e. collect (rdd_map (\<lambda>r. validate_schema l r schema) (RDD xs)) = Inl e))
         \<and> (\<forall>pre post. (\<forall>r\<in>set pre. \<exists>d. validate_schema l r schema = Inr d) \<longrightarrow>
               collect (rdd_map (\<lambda>r. validate_schema l r schema) (parallelize (pre @ row # post)))
                 = Inl (row_length_error (length row) (length schema)))"
proof -
  let ?f = "\<lambda>x. case x of Inl e \<Rightarrow> Inl e | Inr r \<Rightarrow> validate_schema l r schema"
  let ?err = "row_length_error (length row) (length schema)"
  have one: "validate_schema l row schema = Inl ?err"
    using assms by (simp add: validate_schema_def)
  have two: "\<exists>e. collect (rdd_map (\<lambda>r. validate_schema l r schema) (RDD xs)) = Inl e"
    if "Inr row \<in> set xs" for xs
  proof -
    have "?f (Inr row) \<in> ?f ` set xs" using that by (rule imageI)
    then have "Inl ?err \<in> set (map ?f xs)" using one by simp
    then show ?thesis using collect_list_Inl_mem by fastforce
  qed
  have three: "collect (rdd_map (\<lambda>r. validate_schema l r schema) (parallelize (pre @ row # post)))
                 = Inl ?err"
    if ok: "\<forall>r\<in>set pre. \<exists>d. validate_schema l r schema = Inr d" for pre post
  proof -
    have "\<exists>ds. map (\<lambda>r. validate_schema l r schema) pre = map Inr ds" using ok
    proof (induction pre)
      case Nil
      then show ?case by simp
    next
      case (Cons r pre)
      then obtain d ds where "validate_schema l r schema = Inr d"
        "map (\<lambda>r. validate_schema l r schema) pre = map Inr ds" by auto
      then have "map (\<lambda>r. validate_schema l r schema) (r # pre) = map Inr (d # ds)" by simp
      then show ?case by blast
    qed
    then obtain ds where ds: "map (\<lambda>r. validate_schema l r schema) pre = map Inr ds" by blast
    have "map ?f (map Inr (pre @ row # post))
            = map Inr ds @ Inl ?err # map (\<lambda>r. validate_schema l r schema) post"
      using ds one by (simp add: comp_def)
    then show ?thesis by (simp add: parallelize_def collect_list_first_error)
  qed
  from one two three show ?thesis by blast
qed

theorem arity_mismatch_raises_witness:
  "length [VInt 1, VInt 2, VInt 3 :: rat pyval] \<noteq> length [Col ''a'' (Class T_int), Col ''b'' (Class T_int)]
   \<and> validate_schema example_lib [VInt 1, VInt 2, VInt 3] [Col ''a'' (Class T_int), Col ''b'' (Class T_int)]
       = Inl (ValueError ''Length of the row (3) does not match the schema length (2).'')
   \<and> collect (rdd_map (\<lambda>r. validate_schema example_lib r [Col ''a'' (Class T_int), Col ''b'' (Class T_int)])
                (parallelize [[VInt 7, VInt 8], [VInt 1, VInt 2, VInt 3], [VInt 9, VInt 9]]))
       = Inl (ValueError ''Length of the row (3) does not match the schema length (2).'')"
proof -
  let ?schema = "[Col ''a'' (Class T_int), Col ''b'' (Class T_int)]"
  let ?row = "[VInt 1, VInt 2, VInt 3 :: rat pyval]"
  have h: "length ?row \<noteq> length ?schema" by simp
  have e: "row_length_error (length ?row) (length ?schema)
             = ValueError ''Length of the row (3) does not match the schema length (2).''"
    by code_simp
  have ok: "\<forall>r\<in>set [[VInt 7, VInt 8 :: rat pyval]]. \<exists>d. validate_schema example_lib r ?schema = Inr d"
    by (simp add: validate_schema_def getitem_def isinstance_def)
  from arity_mismatch_raises [OF h, of example_lib]
  have a: "validate_schema example_lib ?row ?schema = Inl (row_length_error (length ?row) (length ?schema))"
    and b: "\<And>pre post. (\<forall>r\<in>set pre. \<exists>d. validate_schema example_lib r ?schema = Inr d) \<Longrightarrow>
               collect (rdd_map (\<lambda>r. validate_schema example_lib r ?schema) (parallelize (pre @ ?row # post)))
                 = Inl (row_length_error (length ?row) (length ?schema))"
    by blast+
  have "collect (rdd_map (\<lambda>r. validate_schema example_lib r ?schema)
                  (parallelize ([[VInt 7, VInt 8]] @ ?row # [[VInt 9, VInt 9]])))
          = Inl (row_length_error (length ?row) (length ?schema))"
    using b [OF ok] .
  with a e h show ?thesis by simp
qed

text \<open>
  C9. A row that \<open>validate_schema\<close> returns has exactly one entry for each column of the
  schema, in the order of the columns: the value of the row at that position when it
  is already an instance of the declared class, and otherwise the result of the cast,
  or \<open>None\<close> when the cast raises.
\<close>

theorem validated_row_has_schema_arity:
  assumes "validate_schema l row schema = Inr data"
  shows "length data = length schema \<and>
         (\<forall>i<length schema.
            data ! i = (if already_matches (row ! i) (schema ! i) then row ! i
                        else try_append (cast_value l (schema ! i) (row ! i))))"
proof -
  from assms have len: "length row = length schema" "length data = length schema"
    and cells: "\<forall>j<length schema. validate_cell l row j (schema ! j) = Inr (data ! j)"
    by (simp_all add: validate_schema_Inr)
  have "data ! i = (if already_matches (row ! i) (schema ! i) then row ! i
                    else try_append (cast_value l (schema ! i) (row ! i)))"
    if "i < length schema" for i
  proof -
    have "validate_cell l row i (schema ! i) = Inr (data ! i)" using cells that by blast
    moreover have "i < length row" using len that by simp
    ultimately show ?thesis using validate_cell_result by fastforce
  qed
  with len show ?thesis by blast
qed

theorem validated_row_has_schema_arity_witness:
  "validate_schema example_lib [VStr '' -12 '', VBool True, VInt 3, VStr ''x'']
       [Col ''a'' (Class T_int), Col ''b'' (Class T_int), Col ''c'' (Class T_float), Col ''d'' (Class T_long)]
     = Inr [VInt (- 12), VBool True, VFloat 3, VNone]
   \<and> length [VInt (- 12), VBool True, VFloat 3, VNone :: rat pyval]
     = length [Col ''a'' (Class T_int), Col ''b'' (Class T_int), Col ''c'' (Class T_float), Col ''d'' (Class T_long)]"
proof -
  have run: "validate_schema example_lib [VStr '' -12 '', VBool True, VInt 3, VStr ''x'']
       [Col ''a'' (Class T_int), Col ''b'' (Class T_int), Col ''c'' (Class T_float), Col ''d'' (Class T_long)]
     = Inr [VInt (- 12), VBool True, VFloat 3, VNone]"
    by code_simp
  from validated_row_has_schema_arity [OF run] run show ?thesis by blast
qed

text \<open>
  C10. \<open>isinstance(True, int)\<close> holds, so a boolean in a column declared \<open>int\<close> is
  appended as it is: it is neither cast to 1 or 0 nor replaced by \<open>None\<close>.
\<close>

theorem bool_passes_integer_column:
  "validate_schema l [VBool x] [Col name (Class T_int)] = Inr [VBool x]
   \<and> (\<forall>row schema data i.
         validate_schema l row schema = Inr data \<and> i < length schema
         \<and> schema ! i = Col name (Class T_int) \<and> row ! i = VBool x
         \<longrightarrow> data ! i = VBool x)"
proof -
  have one: "validate_schema l [VBool x] [Col name (Class T_int)] = Inr [VBool x]"
    by (simp add: validate_schema_def getitem_def isinstance_def)
  have two: "data ! i = VBool x"
    if "validate_schema l row schema = Inr data" "i < length schema"
       "schema ! i = Col name (Class T_int)" "row ! i = VBool x" for row schema data i
  proof -
    have "i < length row" and "validate_cell l row i (schema ! i) = Inr (data ! i)"
      using that(1,2) by (simp_all add: validate_schema_Inr)
    then show ?thesis using that(3,4) by (simp add: getitem_def isinstance_def)
  qed
  from one two show ?thesis by blast
qed

theorem bool_passes_integer_column_witness:
  "validate_schema example_lib [VStr ''5'', VBool True] [Col ''n'' (Class T_int), Col ''a'' (Class T_int)]
     = Inr [VInt 5, VBool True]
   \<and> [VInt 5, VBool True :: rat pyval] ! 1 = VBool True"
proof -
  have run: "validate_schema example_lib [VStr ''5'', VBool True] [Col ''n'' (Class T_int), Col ''a'' (Class T_int)]
     = Inr [VInt 5, VBool True]"
    by code_simp
  have "[VInt 5, VBool True :: rat pyval] ! 1 = VBool True"
    using bool_passes_integer_column [of example_lib True "''a''"] run
    by (elim conjE allE [of _ "[VStr ''5'', VBool True]"]) simp
  with run show ?thesis by blast
qed

section \<open>Properties of schema inference\<close>

lemma merge_types_loop_Inr:
  assumes "length a = length b"
  shows "merge_types_loop l a b acc = Inr r \<longleftrightarrow>
           (\<exists>ms. r = acc @ ms \<and> length ms = length a \<and>
                 (\<forall>i<length a. dtypes_merge_types l (a ! i) (b ! i) = Inr (ms ! i)))"
  using assms
proof (induction a b arbitrary: acc rule: list_induct2)
  case Nil
  then show ?case by auto
next
  case (Cons x xs y ys)
  show ?case
  proof (cases "dtypes_merge_types l x y")
    case (Inl e)
    have "\<not> (\<exists>ms. r = acc @ ms \<and> length ms = length (x # xs) \<and>
                 (\<forall>i<length (x # xs). dtypes_merge_types l ((x # xs) ! i) ((y # ys) ! i) = Inr (ms ! i)))"
    proof
      assume "\<exists>ms. r = acc @ ms \<and> length ms = length (x # xs) \<and>
                 (\<forall>i<length (x # xs). dtypes_merge_types l ((x # xs) ! i) ((y # ys) ! i) = Inr (ms ! i))"
      then obtain ms where "\<forall>i<length (x # xs). dtypes_merge_types l ((x # xs) ! i) ((y # ys) ! i) = Inr (ms ! i)"
        by blast
      then have "dtypes_merge_types l ((x # xs) ! 0) ((y # ys) ! 0) = Inr (ms ! 0)" by blast
      then show False using Inl by simp
    qed
    then show ?thesis using Inl by simp
  next
    case (Inr m)
    have "(\<exists>ms. r = (acc @ [m]) @ ms \<and> length ms = length xs \<and>
                 (\<forall>i<length xs. dtypes_merge_types l (xs ! i) (ys ! i) = Inr (ms ! i)))
          \<longleftrightarrow> (\<exists>ms. r = acc @ ms \<and> length ms = length (x # xs) \<and>
                 (\<forall>i<length (x # xs). dtypes_merge_types l ((x # xs) ! i) ((y # ys) ! i) = Inr (ms ! i)))"
      (is "?L \<longleftrightarrow> ?R")
    proof
      assume ?L
      then obtain ms where ms: "r = (acc @ [m]) @ ms" "length ms = length xs"
        "\<forall>i<length xs. dtypes_merge_types l (xs ! i) (ys ! i) = Inr (ms ! i)" by blast
      have "\<forall>i<length (x # xs). dtypes_merge_types l ((x # xs) ! i) ((y # ys) ! i) = Inr ((m # ms) ! i)"
        using ms(3) Inr by (auto simp: nth_Cons split: nat.splits)
      then show ?R using ms(1,2) by (intro exI [of _ "m # ms"]) simp
    next
      assume ?R
      then obtain ws where ws: "r = acc @ ws" "length ws = length (x # xs)"
        "\<forall>i<length (x # xs). dtypes_merge_types l ((x # xs) ! i) ((y # ys) ! i) = Inr (ws ! i)" by blast
      then obtain w ms where wm: "ws = w # ms" by (cases ws) auto
      have "dtypes_merge_types l ((x # xs) ! 0) ((y # ys) ! 0) = Inr (ws ! 0)" using ws(3) by blast
      then have "w = m" using wm Inr by simp
      moreover have "\<forall>i<length xs. dtypes_merge_types l (xs ! i) (ys ! i) = Inr (ms ! i)"
        using ws(3) wm by fastforce
      ultimately show ?L using ws(1,2) wm by (intro exI [of _ ms]) simp
    qed
    then show ?thesis using Cons.IH [of "acc @ [m]"] Inr by simp
  qed
qed

lemma merge_types_Inr:
  "merge_types l a b = Inr r \<longleftrightarrow>
     length a = length b \<and> length r = length a \<and>
     (\<forall>i<length a. dtypes_merge_types l (a ! i) (b ! i) = Inr (r ! i))"
  by (auto simp: merge_types_def merge_types_loop_Inr)

lemma merge_rows_length:
  "merge_rows l running rest = Inr r \<Longrightarrow>
     length r = length running \<and> (\<forall>t\<in>set rest. length t = length running)"
proof (induction rest arbitrary: running)
  case Nil
  then show ?case by simp
next
  case (Cons t rest)
  then obtain m where m: "merge_types l running t = Inr m" "merge_rows l m rest = Inr r"
    by (auto split: sum.splits)
  from m(1) have "length running = length t" "length m = length running"
    by (simp_all add: merge_types_Inr)
  with Cons.IH [OF m(2)] show ?case by simp
qed

lemma merge_rows_append:
  "merge_rows l running (xs @ ys) =
     (case merge_rows l running xs of Inl e \<Rightarrow> Inl e | Inr m \<Rightarrow> merge_rows l m ys)"
  by (induction xs arbitrary: running) (auto split: sum.splits)

lemma merge_sample_merge_rows:
  "\<forall>i\<in>set is. i < length data \<Longrightarrow>
     merge_sample l data is running
       = merge_rows l running (map (\<lambda>i. infer_types_for_row (data ! i)) is)"
  by (induction "is" arbitrary: running) (auto simp: getitem_def split: sum.splits)

lemma take_sampled:
  assumes "data \<noteq> []"
  shows "take (sampled ss (length data)) data
           = data ! 0 # map (\<lambda>i. data ! i) [1..<nat (min ss (int (length data)))]"
proof -
  define k where "k = nat (min ss (int (length data)))"
  have k: "k \<le> length data" by (simp add: k_def)
  have pos: "Suc 0 \<le> length data" using assms by (cases data) simp_all
  then have s: "sampled ss (length data) = max 1 k" unfolding sampled_def k_def by linarith
  have le: "max 1 k \<le> length data" using pos k by (simp add: max_def)
  have upt: "[0..<max 1 k] = 0 # [1..<k]"
  proof (cases "k = 0")
    case True
    then show ?thesis by simp
  next
    case False
    then have "max 1 k = k" and "0 < k" by simp_all
    then show ?thesis using upt_conv_Cons [of 0 k] by simp
  qed
  have "take (max 1 k) data = map (\<lambda>i. data ! i) [0..<max 1 k]"
    using le by (intro nth_equalityI) auto
  then have "take (max 1 k) data = data ! 0 # map (\<lambda>i. data ! i) [1..<k]"
    unfolding upt by simp
  then show ?thesis unfolding s k_def .
qed

lemma infer_schema_refines:
  "infer_schema l data column_names sample_size = spec_infer_schema l data column_names sample_size"
proof (cases data)
  case Nil
  then show ?thesis by (simp add: infer_schema_def spec_infer_schema_def)
next
  case (Cons row0 rest)
  then have ne: "data \<noteq> []" by simp
  let ?k = "nat (min sample_size (int (length data)))"
  have idx: "\<forall>i\<in>set [1..<?k]. i < length data" by auto
  have k: "(if int (length data) < sample_size then int (length data) else sample_size)
             = min sample_size (int (length data))" by (simp add: min_def)
  have "infer_schema l data column_names sample_size =
          (case merge_sample l data [1..<?k] (infer_types_for_row (data ! 0)) of
             Inl e \<Rightarrow> Inl e
           | Inr types \<Rightarrow> Inr (map (name_column column_names) (enumerate 0 types)))"
    using ne k by (simp add: infer_schema_def Let_def)
  also have "\<dots> = spec_infer_schema l data column_names sample_size"
    using merge_sample_merge_rows [OF idx, of l "infer_types_for_row (data ! 0)"] take_sampled [OF ne, of sample_size]
    by (simp add: spec_infer_schema_def comp_def)
  finally show ?thesis .
qed

lemma infer_schema_Inr:
  assumes "infer_schema l data column_names sample_size = Inr schema" and "data \<noteq> []"
  shows "\<exists>types. length types = length (data ! 0)
            \<and> schema = map (name_column column_names) (enumerate 0 types)
            \<and> (\<forall>row\<in>set (take (sampled sample_size (length data)) data). length row = length (data ! 0))"
proof -
  let ?k = "nat (min sample_size (int (length data)))"
  let ?rest = "map (\<lambda>i. infer_types_for_row (data ! i)) [1..<?k]"
  have tk: "map infer_types_for_row (take (sampled sample_size (length data)) data)
              = infer_types_for_row (data ! 0) # ?rest"
    using take_sampled [OF assms(2), of sample_size] by (simp add: comp_def)
  from assms(1) obtain types where t: "merge_rows l (infer_types_for_row (data ! 0)) ?rest = Inr types"
    "schema = map (name_column column_names) (enumerate 0 types)"
    unfolding infer_schema_refines spec_infer_schema_def tk by (auto split: sum.splits)
  from merge_rows_length [OF t(1)]
  have len: "length types = length (data ! 0)"
    and rest: "\<forall>ts\<in>set ?rest. length ts = length (data ! 0)"
    by (simp_all add: infer_types_for_row_def)
  have "\<forall>ts\<in>set (map infer_types_for_row (take (sampled sample_size (length data)) data)).
          length ts = length (data ! 0)"
    unfolding tk using rest by (simp add: infer_types_for_row_def)
  then have "\<forall>row\<in>set (take (sampled sample_size (length data)) data). length row = length (data ! 0)"
    by (simp add: infer_types_for_row_def)
  with len t(2) show ?thesis by blast
qed

lemma infer_schema_arity_error:
  assumes k: "0 < k" "k < sampled ss (length data)" "k < length data"
    and before: "merge_rows l (infer_types_for_row (data ! 0))
                   (map infer_types_for_row (take (k - 1) (drop 1 data))) = Inr running"
    and differ: "length (data ! k) \<noteq> length (data ! 0)"
  shows "infer_schema l data names ss
           = Inl (merge_length_error (length (data ! 0)) (length (data ! k)))"
proof -
  let ?S = "sampled ss (length data)"
  have ne: "data \<noteq> []" using k(3) by auto
  have kS: "k < length (take ?S data)" using k(2,3) by simp
  have "take ?S data = take k (take ?S data) @ (take ?S data) ! k # drop (Suc k) (take ?S data)"
    using id_take_nth_drop [OF kS] .
  then have split: "take ?S data = take k data @ data ! k # drop (Suc k) (take ?S data)"
    using k(2) by (simp add: min_def)
  obtain j where j: "k = Suc j" using k(1) by (cases k) auto
  have tk: "take k data = data ! 0 # take (k - 1) (drop 1 data)"
    using ne j by (cases data) simp_all
  have types: "map infer_types_for_row (take ?S data)
                 = infer_types_for_row (data ! 0)
                   # (map infer_types_for_row (take (k - 1) (drop 1 data))
                      @ infer_types_for_row (data ! k)
                        # map infer_types_for_row (drop (Suc k) (take ?S data)))"
    by (subst split) (simp add: tk)
  have len: "length running = length (data ! 0)"
    using merge_rows_length [OF before] by (simp add: infer_types_for_row_def)
  have "merge_types l running (infer_types_for_row (data ! k))
          = Inl (merge_length_error (length (data ! 0)) (length (data ! k)))"
    using len differ by (simp add: merge_types_def infer_types_for_row_def)
  then show ?thesis
    unfolding infer_schema_refines spec_infer_schema_def types
    using before by (simp add: merge_rows_append)
qed

lemma infer_schema_sampled:
  "infer_schema l data names ss = spec_infer_schema l data names ss
   \<and> (\<forall>data'. length data' = length data
          \<and> take (sampled ss (length data)) data' = take (sampled ss (length data)) data
          \<longrightarrow> infer_schema l data' names ss = infer_schema l data names ss)
   \<and> (\<forall>i j. i < sampled ss (length data) \<and> i < length data
          \<and> j < sampled ss (length data) \<and> j < length data
          \<and> length (data ! i) \<noteq> length (data ! j)
          \<longrightarrow> (\<exists>e. infer_schema l data names ss = Inl e))
   \<and> (\<forall>k running. 0 < k \<and> k < sampled ss (length data) \<and> k < length data
          \<and> merge_rows l (infer_types_for_row (data ! 0))
                (map infer_types_for_row (take (k - 1) (drop 1 data))) = Inr running
          \<and> length (data ! k) \<noteq> length (data ! 0)
          \<longrightarrow> infer_schema l data names ss
                = Inl (merge_length_error (length (data ! 0)) (length (data ! k))))
   \<and> (\<forall>a b r. merge_types l a b = Inr r \<longleftrightarrow>
          length a = length b \<and> length r = length a
          \<and> (\<forall>i<length a. dtypes_merge_types l (a ! i) (b ! i) = Inr (r ! i)))"
proof -
  have a: "infer_schema l data names ss = spec_infer_schema l data names ss"
    by (rule infer_schema_refines)
  have b: "infer_schema l data' names ss = infer_schema l data names ss"
    if "length data' = length data"
       "take (sampled ss (length data)) data' = take (sampled ss (length data)) data" for data'
    using that by (simp add: infer_schema_refines spec_infer_schema_def)
  have c: "\<exists>e. infer_schema l data names ss = Inl e"
    if "i < sampled ss (length data)" "i < length data"
       "j < sampled ss (length data)" "j < length data"
       "length (data ! i) \<noteq> length (data ! j)" for i j
  proof (cases "infer_schema l data names ss")
    case (Inl e)
    then show ?thesis by blast
  next
    case (Inr schema)
    have ne: "data \<noteq> []" using that(2) by auto
    from infer_schema_Inr [OF Inr ne]
    have all: "\<forall>row\<in>set (take (sampled ss (length data)) data). length row = length (data ! 0)"
      by blast
    have "data ! i \<in> set (take (sampled ss (length data)) data)"
      using that(1,2) by (metis in_set_conv_nth length_take min_less_iff_conj nth_take)
    moreover have "data ! j \<in> set (take (sampled ss (length data)) data)"
      using that(3,4) by (metis in_set_conv_nth length_take min_less_iff_conj nth_take)
    ultimately have "length (data ! i) = length (data ! j)" using all by simp
    then show ?thesis using that(5) by simp
  qed
  have d: "infer_schema l data names ss
             = Inl (merge_length_error (length (data ! 0)) (length (data ! k)))"
    if "0 < k" "k < sampled ss (length data)" "k < length data"
       "merge_rows l (infer_types_for_row (data ! 0))
          (map infer_types_for_row (take (k - 1) (drop 1 data))) = Inr running"
       "length (data ! k) \<noteq> length (data ! 0)" for k running
    using that by (rule infer_schema_arity_error)
  have e: "\<forall>a b r. merge_types l a b = Inr r \<longleftrightarrow>
          length a = length b \<and> length r = length a
          \<and> (\<forall>i<length a. dtypes_merge_types l (a ! i) (b ! i) = Inr (r ! i))"
    by (simp add: merge_types_Inr)
  from a b c d e show ?thesis by blast
qed


lemma sampled_sample_bound:
  "1 \<le> ss \<Longrightarrow> 0 < n \<Longrightarrow> sampled ss n = sample_bound ss n"
  by (simp add: sampled_def sample_bound_def)

lemma sample_bound_range:
  "1 \<le> ss \<Longrightarrow> 0 < n \<Longrightarrow> 0 < sample_bound ss n \<and> sample_bound ss n \<le> n"
  by (simp add: sample_bound_def)

lemma take_first:
  "data \<noteq> [] \<Longrightarrow> 0 < m \<Longrightarrow> take m data = data ! 0 # take (m - 1) (drop 1 data)"
  by (cases data; cases m) simp_all

text \<open>
  C6. For a non-empty list of rows and a sample size of at least 1 (100 by default),
  \<open>_infer_schema\<close> takes the type list of row 0 as the running list and merges into it,
  column by column through \<open>merge_types\<close>, the type list of each further row before
  position \<open>min(sample_size, len(data))\<close>. The rows from that position on have no
  influence on the schema. Inference raises when two sampled rows differ in arity, and
  when the rows before the first row whose arity differs from that of row 0 merge,
  what is raised is the ValueError of \<open>_merge_types\<close> on the two lengths.
\<close>

theorem infer_schema_merges_the_sample:
  assumes "data \<noteq> []" and "1 \<le> sample_size"
  shows
   "infer_schema l data names sample_size =
      (case merge_rows l (infer_types_for_row (data ! 0))
              (map infer_types_for_row
                 (take (sample_bound sample_size (length data) - 1) (drop 1 data))) of
         Inl e \<Rightarrow> Inl e
       | Inr types \<Rightarrow> Inr (map (name_column names) (enumerate 0 types)))
    \<and> (\<forall>data'. sample_bound sample_size (length data') = sample_bound sample_size (length data)
           \<and> take (sample_bound sample_size (length data)) data'
               = take (sample_bound sample_size (length data)) data
           \<longrightarrow> infer_schema l data' names sample_size = infer_schema l data names sample_size)
    \<and> (\<forall>i j. i < sample_bound sample_size (length data)
           \<and> j < sample_bound sample_size (length data)
           \<and> length (data ! i) \<noteq> length (data ! j)
           \<longrightarrow> (\<exists>e. infer_schema l data names sample_size = Inl e))
    \<and> (\<forall>k running. 0 < k \<and> k < sample_bound sample_size (length data)
           \<and> merge_rows l (infer_types_for_row (data ! 0))
                 (map infer_types_for_row (take (k - 1) (drop 1 data))) = Inr running
           \<and> length (data ! k) \<noteq> length (data ! 0)
           \<longrightarrow> infer_schema l data names sample_size
                 = Inl (merge_length_error (length (data ! 0)) (length (data ! k))))
    \<and> (\<forall>a b r. merge_types l a b = Inr r \<longleftrightarrow>
           length a = length b \<and> length r = length a
           \<and> (\<forall>i<length a. dtypes_merge_types l (a ! i) (b ! i) = Inr (r ! i)))"
proof -
  let ?m = "sample_bound sample_size (length data)"
  have n: "0 < length data" using assms(1) by simp
  have S: "sampled sample_size (length data) = ?m"
    using assms(2) n by (rule sampled_sample_bound)
  have m: "0 < ?m" "?m \<le> length data" using sample_bound_range [OF assms(2) n] by simp_all
  note general = infer_schema_sampled [of l data names sample_size, unfolded S]
  have a: "infer_schema l data names sample_size =
      (case merge_rows l (infer_types_for_row (data ! 0))
              (map infer_types_for_row (take (?m - 1) (drop 1 data))) of
         Inl e \<Rightarrow> Inl e
       | Inr types \<Rightarrow> Inr (map (name_column names) (enumerate 0 types)))"
    unfolding infer_schema_refines spec_infer_schema_def S
    by (simp add: take_first [OF assms(1) m(1)])
  have b: "infer_schema l data' names sample_size = infer_schema l data names sample_size"
    if same: "sample_bound sample_size (length data') = ?m"
      and prefix: "take ?m data' = take ?m data" for data'
  proof -
    have "take ?m data \<noteq> []" using assms(1) m(1) by simp
    then have "data' \<noteq> []" using prefix by auto
    then have "sampled sample_size (length data') = ?m"
      using sampled_sample_bound [OF assms(2), of "length data'"] same by simp
    then show ?thesis using prefix S
      by (simp add: infer_schema_refines spec_infer_schema_def)
  qed
  have c: "\<exists>e. infer_schema l data names sample_size = Inl e"
    if "i < ?m" "j < ?m" "length (data ! i) \<noteq> length (data ! j)" for i j
  proof -
    have "i < length data" "j < length data" using that(1,2) m(2) by simp_all
    then show ?thesis using general that by blast
  qed
  have d: "infer_schema l data names sample_size
             = Inl (merge_length_error (length (data ! 0)) (length (data ! k)))"
    if "0 < k" "k < ?m"
       "merge_rows l (infer_types_for_row (data ! 0))
          (map infer_types_for_row (take (k - 1) (drop 1 data))) = Inr running"
       "length (data ! k) \<noteq> length (data ! 0)" for k running
  proof -
    have k1: "k < sampled sample_size (length data)" using that(2) S by simp
    have k2: "k < length data" using that(2) m(2) by simp
    show ?thesis by (rule infer_schema_arity_error [OF that(1) k1 k2 that(3) that(4)])
  qed
  have e: "\<forall>a b r. merge_types l a b = Inr r \<longleftrightarrow>
           length a = length b \<and> length r = length a
           \<and> (\<forall>i<length a. dtypes_merge_types l (a ! i) (b ! i) = Inr (r ! i))"
    by (simp add: merge_types_Inr)
  from a b c d e show ?thesis by blast
qed


theorem infer_schema_merges_the_sample_witness:
  "[[VInt 1], [VFloat 2], [VStr ''a'', VInt 2 :: rat pyval]] \<noteq> []
   \<and> (1::int) \<le> 2
   \<and> sample_bound 2 (length [[VInt 1], [VFloat 2], [VBool True :: rat pyval]])
       = sample_bound 2 (length [[VInt 1], [VFloat 2], [VStr ''a'', VInt 2 :: rat pyval]])
   \<and> take (sample_bound 2 (length [[VInt 1], [VFloat 2], [VStr ''a'', VInt 2 :: rat pyval]]))
          [[VInt 1], [VFloat 2], [VBool True :: rat pyval]]
       = take (sample_bound 2 (length [[VInt 1], [VFloat 2], [VStr ''a'', VInt 2 :: rat pyval]]))
          [[VInt 1], [VFloat 2], [VStr ''a'', VInt 2]]
   \<and> infer_schema example_lib [[VInt 1], [VFloat 2], [VBool True]] [] 2
       = infer_schema example_lib [[VInt 1], [VFloat 2], [VStr ''a'', VInt 2]] [] 2
   \<and> infer_schema example_lib [[VInt 1], [VFloat 2], [VStr ''a'', VInt 2]] [] 2
       = Inr [Col ''C0'' (Class T_float)]
   \<and> (1::int) \<le> 100
   \<and> (2::nat) < sample_bound 100 (length [[VInt 1], [VFloat 2], [VStr ''a'', VInt 2 :: rat pyval]])
   \<and> length ([[VInt 1], [VFloat 2], [VStr ''a'', VInt 2 :: rat pyval]] ! 2)
       \<noteq> length ([[VInt 1], [VFloat 2], [VStr ''a'', VInt 2 :: rat pyval]] ! 0)
   \<and> infer_schema example_lib [[VInt 1], [VFloat 2], [VStr ''a'', VInt 2]] [] 100
       = Inl (merge_length_error
               (length ([[VInt 1], [VFloat 2], [VStr ''a'', VInt 2 :: rat pyval]] ! 0))
               (length ([[VInt 1], [VFloat 2], [VStr ''a'', VInt 2 :: rat pyval]] ! 2)))"
proof -
  let ?data = "[[VInt 1], [VFloat 2], [VStr ''a'', VInt 2 :: rat pyval]]"
  let ?data' = "[[VInt 1], [VFloat 2], [VBool True :: rat pyval]]"
  have ne: "?data \<noteq> []" by simp
  have p2: "(1::int) \<le> 2" and p100: "(1::int) \<le> 100" by simp_all
  have h1: "sample_bound 2 (length ?data') = sample_bound 2 (length ?data)" by simp
  have h2: "take (sample_bound 2 (length ?data)) ?data' = take (sample_bound 2 (length ?data)) ?data"
    by code_simp
  have v: "infer_schema example_lib ?data [] 2 = Inr [Col ''C0'' (Class T_float)]"
    by code_simp
  have h3: "(2::nat) < sample_bound 100 (length ?data)" by code_simp
  have h4: "length (?data ! 2) \<noteq> length (?data ! 0)" by simp
  have h5: "merge_rows example_lib (infer_types_for_row (?data ! 0))
              (map infer_types_for_row (take (2 - 1) (drop 1 ?data))) = Inr [Class T_float]"
    by code_simp
  note two = infer_schema_merges_the_sample [OF ne p2, of example_lib "[]"]
  note hundred = infer_schema_merges_the_sample [OF ne p100, of example_lib "[]"]
  have same: "infer_schema example_lib ?data' [] 2 = infer_schema example_lib ?data [] 2"
    by (rule two [THEN conjunct2, THEN conjunct1, THEN spec, THEN mp, OF conjI [OF h1 h2]])
  have pos: "(0::nat) < 2" by simp
  have err: "infer_schema example_lib ?data [] 100
               = Inl (merge_length_error (length (?data ! 0)) (length (?data ! 2)))"
    by (rule hundred [THEN conjunct2, THEN conjunct2, THEN conjunct2, THEN conjunct1,
          THEN spec, THEN spec, THEN mp, OF conjI [OF pos conjI [OF h3 conjI [OF h5 h4]]]])
  from ne p2 h1 h2 same v p100 h3 h4 err show ?thesis by (intro conjI)
qed

lemma name_column_append:
  "i < length names \<Longrightarrow> name_column (names @ extra) (i, t) = name_column names (i, t)"
  by (simp add: name_column_def nth_append)

lemma names_beyond_ignored:
  assumes "length types \<le> length names"
  shows "map (name_column (names @ extra)) (enumerate 0 types)
           = map (name_column names) (enumerate 0 types)"
proof (rule nth_equalityI)
  show "length (map (name_column (names @ extra)) (enumerate 0 types))
          = length (map (name_column names) (enumerate 0 types))" by simp
next
  fix i assume "i < length (map (name_column (names @ extra)) (enumerate 0 types))"
  then have i: "i < length types" by simp
  then have "i < length names" using assms by simp
  then show "map (name_column (names @ extra)) (enumerate 0 types) ! i
               = map (name_column names) (enumerate 0 types) ! i"
    using i by (simp add: nth_enumerate_eq name_column_append)
qed

text \<open>
  C7. The schema that \<open>_infer_schema\<close> returns for a non-empty list has one column for
  each item of row 0; column \<open>i\<close> is named \<open>column_names[i]\<close> when
  \<open>i < len(column_names)\<close> and \<open>"C" + str(i)\<close> otherwise; names beyond the number of
  columns change nothing. When \<open>merge_types\<close> merges a type with itself to that type,
  the rows \<open>[1, "a", 1.5]\<close>, \<open>[2, "b", 5.0]\<close> with the names \<open>"number"\<close>,
  \<open>"letter"\<close> give \<open>[("number", int), ("letter", str), ("C2", float)]\<close>.
\<close>

theorem inferred_column_names:
  "(\<forall>schema. infer_schema l data names ss = Inr schema \<longrightarrow>
       (data \<noteq> [] \<longrightarrow> length schema = length (data ! 0))
       \<and> (\<forall>i<length schema.
             column_name (schema ! i)
               = (if i < length names then names ! i else ''C'' @ string_of_nat i)))
   \<and> (\<forall>extra. (data \<noteq> [] \<longrightarrow> length (data ! 0) \<le> length names) \<longrightarrow>
          infer_schema l data (names @ extra) ss = infer_schema l data names ss)
   \<and> ((\<forall>t. dtypes_merge_types l t t = Inr t) \<longrightarrow>
          infer_schema l [[VInt 1, VStr ''a'', VFloat x], [VInt 2, VStr ''b'', VFloat y]]
              [''number'', ''letter''] 100
            = Inr [Col ''number'' (Class T_int), Col ''letter'' (Class T_str),
                   Col ''C2'' (Class T_float)])"
proof -
  have a: "(data \<noteq> [] \<longrightarrow> length schema = length (data ! 0))
       \<and> (\<forall>i<length schema.
             column_name (schema ! i)
               = (if i < length names then names ! i else ''C'' @ string_of_nat i))"
    if run: "infer_schema l data names ss = Inr schema" for schema
  proof (cases "data = []")
    case True
    then have "schema = []" using run by (simp add: infer_schema_def)
    then show ?thesis using True by simp
  next
    case False
    from infer_schema_Inr [OF run False] obtain types where
      t: "length types = length (data ! 0)" "schema = map (name_column names) (enumerate 0 types)"
      by blast
    have "column_name (schema ! i) = (if i < length names then names ! i else ''C'' @ string_of_nat i)"
      if "i < length schema" for i
      using that t(2) by (simp add: nth_enumerate_eq name_column_def)
    then show ?thesis using t by simp
  qed
  have b: "infer_schema l data (names @ extra) ss = infer_schema l data names ss"
    if cover: "data \<noteq> [] \<longrightarrow> length (data ! 0) \<le> length names" for extra
  proof (cases "data = []")
    case True
    then show ?thesis by (simp add: infer_schema_def)
  next
    case False
    let ?k = "nat (min ss (int (length data)))"
    let ?rest = "map (\<lambda>i. infer_types_for_row (data ! i)) [1..<?k]"
    have tk: "map infer_types_for_row (take (sampled ss (length data)) data)
                = infer_types_for_row (data ! 0) # ?rest"
      using take_sampled [OF False, of ss] by (simp add: comp_def)
    have eq: "infer_schema l data ns ss =
                (case merge_rows l (infer_types_for_row (data ! 0)) ?rest of
                   Inl e \<Rightarrow> Inl e
                 | Inr types \<Rightarrow> Inr (map (name_column ns) (enumerate 0 types)))" for ns
      unfolding infer_schema_refines spec_infer_schema_def tk by simp
    show ?thesis
    proof (cases "merge_rows l (infer_types_for_row (data ! 0)) ?rest")
      case (Inl e)
      then show ?thesis by (simp add: eq)
    next
      case (Inr types)
      have "length types = length (data ! 0)"
        using merge_rows_length [OF Inr] by (simp add: infer_types_for_row_def)
      then have "length types \<le> length names" using cover False by simp
      then show ?thesis using Inr by (simp add: eq names_beyond_ignored)
    qed
  qed
  have c: "infer_schema l [[VInt 1, VStr ''a'', VFloat x], [VInt 2, VStr ''b'', VFloat y]]
              [''number'', ''letter''] 100
            = Inr [Col ''number'' (Class T_int), Col ''letter'' (Class T_str),
                   Col ''C2'' (Class T_float)]"
    if same: "\<forall>t. dtypes_merge_types l t t = Inr t"
  proof -
    have two: "string_of_nat (Suc (Suc 0)) = ''2''" by code_simp
    have idx: "[Suc 0..<2] = [Suc 0]" by (simp add: numeral_2_eq_2)
    show ?thesis
      using same
      by (simp add: infer_schema_def infer_types_for_row_def merge_types_def getitem_def
          name_column_def idx two)
  qed
  from a b c show ?thesis by blast
qed

theorem inferred_column_names_witness:
  "(\<forall>t. dtypes_merge_types example_lib t t = Inr t)
   \<and> infer_schema example_lib [[VInt 1, VStr ''a'', VFloat (3 / 2)], [VInt 2, VStr ''b'', VFloat 5]]
         [''number'', ''letter''] 100
       = Inr [Col ''number'' (Class T_int), Col ''letter'' (Class T_str), Col ''C2'' (Class T_float)]
   \<and> length [Col ''number'' (Class T_int), Col ''letter'' (Class T_str), Col ''C2'' (Class T_float)]
       = length ([[VInt 1, VStr ''a'', VFloat (3 / 2)], [VInt 2, VStr ''b'', VFloat 5 :: rat pyval]] ! 0)
   \<and> column_name ([Col ''number'' (Class T_int), Col ''letter'' (Class T_str), Col ''C2'' (Class T_float)] ! 2)
       = ''C'' @ string_of_nat 2
   \<and> length ([[VInt 1 :: rat pyval]] ! 0) \<le> length [''n'']
   \<and> infer_schema example_lib [[VInt 1]] ([''n''] @ [''unused'', ''names'']) 100
       = infer_schema example_lib [[VInt 1]] [''n''] 100
   \<and> infer_schema example_lib [[VInt 1]] [''n''] 100 = Inr [Col ''n'' (Class T_int)]"
proof -
  let ?data = "[[VInt 1, VStr ''a'', VFloat (3 / 2)], [VInt 2, VStr ''b'', VFloat 5 :: rat pyval]]"
  let ?schema = "[Col ''number'' (Class T_int), Col ''letter'' (Class T_str), Col ''C2'' (Class T_float)]"
  have same: "\<forall>t. dtypes_merge_types example_lib t t = Inr t"
    by (simp add: example_lib_def spec_merge_types_def)
  note ex = inferred_column_names [of example_lib ?data "[''number'', ''letter'']" 100 "3 / 2" 5]
  have run: "infer_schema example_lib ?data [''number'', ''letter''] 100 = Inr ?schema"
    using ex same by blast
  have shape: "(?data \<noteq> [] \<longrightarrow> length ?schema = length (?data ! 0))
       \<and> (\<forall>i<length ?schema.
             column_name (?schema ! i)
               = (if i < length [''number'', ''letter''] then [''number'', ''letter''] ! i
                  else ''C'' @ string_of_nat i))"
    using ex run by blast
  have len: "length ?schema = length (?data ! 0)" using shape by blast
  have "(2::nat) < length ?schema" by simp
  with shape have "column_name (?schema ! 2)
               = (if 2 < length [''number'', ''letter''] then [''number'', ''letter''] ! 2
                  else ''C'' @ string_of_nat 2)" by blast
  then have c2: "column_name (?schema ! 2) = ''C'' @ string_of_nat 2" by simp
  note ig = inferred_column_names [of example_lib "[[VInt 1]]" "[''n'']" 100]
  have cover: "length ([[VInt 1 :: rat pyval]] ! 0) \<le> length [''n'']" by simp
  have ignored: "infer_schema example_lib [[VInt 1]] ([''n''] @ [''unused'', ''names'']) 100
       = infer_schema example_lib [[VInt 1]] [''n''] 100"
    using ig cover by blast
  have one: "infer_schema example_lib [[VInt 1]] [''n''] 100 = Inr [Col ''n'' (Class T_int)]"
    by code_simp
  from same run len c2 cover ignored one show ?thesis by blast
qed

section \<open>Properties of the frame and its backends\<close>

lemma scala_of_scala_frame:
  "frame self = ScalaFrame h \<Longrightarrow> scala g (self, w) = (Inr (ScalaFrame h), (self, w))"
  by (simp add: scala_def bind_action_def get_frame_def)

lemma python_of_python_frame:
  "frame self = PythonFrame rdd schema \<Longrightarrow>
     python g (self, w) = (Inr (PythonFrame rdd schema), (self, w))"
  by (simp add: python_def bind_action_def get_frame_def)

lemma scala_of_python_frame:
  "frame self = PythonFrame rdd schema \<Longrightarrow>
     scala g (self, w) =
       (case promote_exchange g rdd schema w of
          (Inl e, w') \<Rightarrow> (Inl e, (self, w'))
        | (Inr created, w') \<Rightarrow>
            (Inr (ScalaFrame created), (self\<lparr>frame := ScalaFrame created\<rparr>, w')))"
  by (simp add: scala_def promote_exchange_def bind_action_def bind_jvm_def get_frame_def
      set_frame_def call_def create_scala_frame_def split: prod.splits sum.splits)

lemma python_of_scala_frame:
  "frame self = ScalaFrame h \<Longrightarrow>
     python g (self, w) =
       (case demote_exchange g h w of
          (Inl e, w') \<Rightarrow> (Inl e, (self, w'))
        | (Inr (python_rdd, python_schema), w') \<Rightarrow>
            (Inr (PythonFrame python_rdd (Some python_schema)),
             (self\<lparr>frame := PythonFrame python_rdd (Some python_schema)\<rparr>, w')))"
  by (simp add: python_def demote_exchange_def bind_action_def bind_jvm_def get_frame_def
      set_frame_def call_def return_jvm_def split: prod.splits sum.splits)

text \<open>
  C4. On a frame whose backend is a Scala frame, \<open>_scala\<close> returns \<open>self._frame\<close> and
  leaves the object and the engine as they are: no gateway call is made, whatever the
  gateway. On a frame whose backend is a \<open>PythonFrame\<close>, \<open>_python\<close> does the same.
  Hence a second access, after one that succeeded, returns the same backend and
  changes nothing.
\<close>

theorem backend_access_is_idempotent:
  "(is_scala self \<longrightarrow> scala g (self, w) = (Inr (frame self), (self, w)))
   \<and> (is_python self \<longrightarrow> python g (self, w) = (Inr (frame self), (self, w)))
   \<and> (\<forall>fr s'. scala g (self, w) = (Inr fr, s') \<longrightarrow> scala g s' = (Inr fr, s'))
   \<and> (\<forall>fr s'. python g (self, w) = (Inr fr, s') \<longrightarrow> python g s' = (Inr fr, s'))"
proof -
  have a: "scala g (self, w) = (Inr (frame self), (self, w))" if "is_scala self"
  proof (cases "frame self")
    case (ScalaFrame h)
    then show ?thesis by (simp add: scala_of_scala_frame)
  next
    case (PythonFrame rdd schema)
    then show ?thesis using that by (simp add: is_scala_def)
  qed
  have b: "python g (self, w) = (Inr (frame self), (self, w))" if "is_python self"
  proof (cases "frame self")
    case (ScalaFrame h)
    then show ?thesis using that by (simp add: is_python_def is_scala_def)
  next
    case (PythonFrame rdd schema)
    then show ?thesis by (simp add: python_of_python_frame)
  qed
  have c: "scala g s' = (Inr fr, s')" if run: "scala g (self, w) = (Inr fr, s')" for fr s'
  proof (cases "frame self")
    case (ScalaFrame h)
    from run have "fr = ScalaFrame h" and "s' = (self, w)"
      by (auto simp: scala_of_scala_frame [OF ScalaFrame])
    then show ?thesis by (simp add: scala_of_scala_frame [OF ScalaFrame])
  next
    case (PythonFrame rdd schema)
    obtain r w1 where ex: "promote_exchange g rdd schema w = (r, w1)"
      by (cases "promote_exchange g rdd schema w")
    show ?thesis
    proof (cases r)
      case (Inl e)
      then show ?thesis using run ex by (simp add: scala_of_python_frame [OF PythonFrame])
    next
      case (Inr created)
      then have "fr = ScalaFrame created" and "s' = (self\<lparr>frame := ScalaFrame created\<rparr>, w1)"
        using run ex by (auto simp: scala_of_python_frame [OF PythonFrame])
      then show ?thesis by (simp add: scala_of_scala_frame)
    qed
  qed
  have d: "python g s' = (Inr fr, s')" if run: "python g (self, w) = (Inr fr, s')" for fr s'
  proof (cases "frame self")
    case (PythonFrame rdd schema)
    from run have "fr = PythonFrame rdd schema" and "s' = (self, w)"
      by (auto simp: python_of_python_frame [OF PythonFrame])
    then show ?thesis by (simp add: python_of_python_frame [OF PythonFrame])
  next
    case (ScalaFrame h)
    obtain r w1 where ex: "demote_exchange g h w = (r, w1)"
      by (cases "demote_exchange g h w")
    show ?thesis
    proof (cases r)
      case (Inl e)
      then show ?thesis using run ex by (simp add: python_of_scala_frame [OF ScalaFrame])
    next
      case (Inr p)
      obtain python_rdd python_schema where p: "p = (python_rdd, python_schema)" by (cases p)
      have "fr = PythonFrame python_rdd (Some python_schema)"
        and "s' = (self\<lparr>frame := PythonFrame python_rdd (Some python_schema)\<rparr>, w1)"
        using run ex Inr p by (auto simp: python_of_scala_frame [OF ScalaFrame])
      then show ?thesis by (simp add: python_of_python_frame)
    qed
  qed
  from a b c d show ?thesis by blast
qed

theorem backend_access_is_idempotent_witness:
  "is_scala \<lparr>frame = ScalaFrame 7 :: rat frame_obj\<rparr>
   \<and> scala counting_gateway (\<lparr>frame = ScalaFrame 7\<rparr>, 0) = (Inr (ScalaFrame 7), (\<lparr>frame = ScalaFrame 7\<rparr>, 0))
   \<and> is_python \<lparr>frame = PythonFrame (RDD []) None :: rat frame_obj\<rparr>
   \<and> python counting_gateway (\<lparr>frame = PythonFrame (RDD []) None\<rparr>, 0)
       = (Inr (PythonFrame (RDD []) None), (\<lparr>frame = PythonFrame (RDD []) None\<rparr>, 0))
   \<and> scala counting_gateway (\<lparr>frame = PythonFrame (RDD []) None\<rparr>, 0)
       = (Inr (ScalaFrame 3), (\<lparr>frame = ScalaFrame 3\<rparr>, 3))
   \<and> scala counting_gateway (\<lparr>frame = ScalaFrame 3\<rparr>, 3)
       = (Inr (ScalaFrame 3), (\<lparr>frame = ScalaFrame 3\<rparr>, 3))"
proof -
  let ?remote = "\<lparr>frame = ScalaFrame 7 :: rat frame_obj\<rparr>"
  let ?local = "\<lparr>frame = PythonFrame (RDD []) None :: rat frame_obj\<rparr>"
  have h1: "is_scala ?remote" by (simp add: is_scala_def)
  have h2: "is_python ?local" by (simp add: is_python_def is_scala_def)
  have promote: "scala counting_gateway (?local, 0)
                   = (Inr (ScalaFrame 3), (\<lparr>frame = ScalaFrame 3\<rparr>, 3))"
    by code_simp
  have a: "scala counting_gateway (?remote, 0) = (Inr (frame ?remote), (?remote, 0))"
    using backend_access_is_idempotent [of ?remote counting_gateway 0] h1 by blast
  have b: "python counting_gateway (?local, 0) = (Inr (frame ?local), (?local, 0))"
    using backend_access_is_idempotent [of ?local counting_gateway 0] h2 by blast
  have c: "scala counting_gateway (\<lparr>frame = ScalaFrame 3\<rparr>, 3)
             = (Inr (ScalaFrame 3), (\<lparr>frame = ScalaFrame 3\<rparr>, 3))"
    using backend_access_is_idempotent [of ?local counting_gateway 0] promote by blast
  from h1 h2 a b c promote show ?thesis by simp
qed

lemma promote_exchange_steps:
  "(\<forall>e w1. schema_to_scala g schema w = (Inl e, w1) \<longrightarrow>
       promote_exchange g rdd schema w = (Inl e, w1))
   \<and> (\<forall>scala_schema w1 e w2.
         schema_to_scala g schema w = (Inr scala_schema, w1)
         \<and> pythonToScala g rdd scala_schema w1 = (Inl e, w2) \<longrightarrow>
         promote_exchange g rdd schema w = (Inl e, w2))
   \<and> (\<forall>scala_schema w1 scala_rdd w2.
         schema_to_scala g schema w = (Inr scala_schema, w1)
         \<and> pythonToScala g rdd scala_schema w1 = (Inr scala_rdd, w2) \<longrightarrow>
         promote_exchange g rdd schema w = new_scala_Frame g scala_rdd scala_schema w2)"
  by (simp add: promote_exchange_def bind_jvm_def)

lemma demote_exchange_steps:
  "(\<forall>e w1. scala_frame_schema g h w = (Inl e, w1) \<longrightarrow>
       demote_exchange g h w = (Inl e, w1))
   \<and> (\<forall>scala_schema w1 e w2.
         scala_frame_schema g h w = (Inr scala_schema, w1)
         \<and> scala_frame_rdd g h w1 = (Inl e, w2) \<longrightarrow>
         demote_exchange g h w = (Inl e, w2))
   \<and> (\<forall>scala_schema w1 scala_rdd w2 e w3.
         scala_frame_schema g h w = (Inr scala_schema, w1)
         \<and> scala_frame_rdd g h w1 = (Inr scala_rdd, w2)
         \<and> scalaToPython g scala_rdd w2 = (Inl e, w3) \<longrightarrow>
         demote_exchange g h w = (Inl e, w3))
   \<and> (\<forall>scala_schema w1 scala_rdd w2 java_rdd w3 e w4.
         scala_frame_schema g h w = (Inr scala_schema, w1)
         \<and> scala_frame_rdd g h w1 = (Inr scala_rdd, w2)
         \<and> scalaToPython g scala_rdd w2 = (Inr java_rdd, w3)
         \<and> schema_to_python g scala_schema w3 = (Inl e, w4) \<longrightarrow>
         demote_exchange g h w = (Inl e, w4))
   \<and> (\<forall>scala_schema w1 scala_rdd w2 java_rdd w3 python_schema w4 e w5.
         scala_frame_schema g h w = (Inr scala_schema, w1)
         \<and> scala_frame_rdd g h w1 = (Inr scala_rdd, w2)
         \<and> scalaToPython g scala_rdd w2 = (Inr java_rdd, w3)
         \<and> schema_to_python g scala_schema w3 = (Inr python_schema, w4)
         \<and> new_RDD g java_rdd w4 = (Inl e, w5) \<longrightarrow>
         demote_exchange g h w = (Inl e, w5))
   \<and> (\<forall>scala_schema w1 scala_rdd w2 java_rdd w3 python_schema w4 python_rdd w5.
         scala_frame_schema g h w = (Inr scala_schema, w1)
         \<and> scala_frame_rdd g h w1 = (Inr scala_rdd, w2)
         \<and> scalaToPython g scala_rdd w2 = (Inr java_rdd, w3)
         \<and> schema_to_python g scala_schema w3 = (Inr python_schema, w4)
         \<and> new_RDD g java_rdd w4 = (Inr python_rdd, w5) \<longrightarrow>
         demote_exchange g h w = (Inr (python_rdd, python_schema), w5))"
  by (simp add: demote_exchange_def bind_jvm_def return_jvm_def)

lemma swap_backward:
  "(\<forall>e self' w'. scala g (self, w) = (Inl e, (self', w')) \<longrightarrow>
       self' = self
       \<and> (\<exists>rdd schema. frame self = PythonFrame rdd schema
              \<and> promote_exchange g rdd schema w = (Inl e, w')))
   \<and> (\<forall>fr self' w'. scala g (self, w) = (Inr fr, (self', w')) \<longrightarrow>
       frame self' = fr \<and> is_scala self')
   \<and> (\<forall>e self' w'. python g (self, w) = (Inl e, (self', w')) \<longrightarrow>
       self' = self
       \<and> (\<exists>scala_frame. frame self = ScalaFrame scala_frame
              \<and> demote_exchange g scala_frame w = (Inl e, w')))
   \<and> (\<forall>fr self' w'. python g (self, w) = (Inr fr, (self', w')) \<longrightarrow>
       frame self' = fr \<and> is_python self')"
proof (cases "frame self")
  case (ScalaFrame h)
  have up: "scala g (self, w) = (Inr (ScalaFrame h), (self, w))"
    by (rule scala_of_scala_frame [OF ScalaFrame])
  obtain r w1 where ex: "demote_exchange g h w = (r, w1)"
    by (cases "demote_exchange g h w")
  have sc: "is_scala self" using ScalaFrame by (simp add: is_scala_def)
  show ?thesis
  proof (cases r)
    case (Inl e)
    then have "python g (self, w) = (Inl e, (self, w1))"
      using ex by (simp add: python_of_scala_frame [OF ScalaFrame])
    then show ?thesis using up ScalaFrame sc ex Inl by simp
  next
    case (Inr p)
    obtain python_rdd python_schema where p: "p = (python_rdd, python_schema)" by (cases p)
    have "python g (self, w) = (Inr (PythonFrame python_rdd (Some python_schema)),
            (self\<lparr>frame := PythonFrame python_rdd (Some python_schema)\<rparr>, w1))"
      using ex Inr p by (simp add: python_of_scala_frame [OF ScalaFrame])
    then show ?thesis using up ScalaFrame sc by (auto simp: is_python_def is_scala_def)
  qed
next
  case (PythonFrame rdd schema)
  have down: "python g (self, w) = (Inr (PythonFrame rdd schema), (self, w))"
    by (rule python_of_python_frame [OF PythonFrame])
  obtain r w1 where ex: "promote_exchange g rdd schema w = (r, w1)"
    by (cases "promote_exchange g rdd schema w")
  have py: "is_python self" using PythonFrame by (simp add: is_python_def is_scala_def)
  show ?thesis
  proof (cases r)
    case (Inl e)
    then have "scala g (self, w) = (Inl e, (self, w1))"
      using ex by (simp add: scala_of_python_frame [OF PythonFrame])
    then show ?thesis using down PythonFrame py ex Inl by simp
  next
    case (Inr created)
    then have "scala g (self, w) = (Inr (ScalaFrame created), (self\<lparr>frame := ScalaFrame created\<rparr>, w1))"
      using ex by (simp add: scala_of_python_frame [OF PythonFrame])
    then show ?thesis using down PythonFrame py by (auto simp: is_scala_def)
  qed
qed

lemma promote_forward:
  "\<forall>rdd schema.
      frame self = PythonFrame rdd schema \<longrightarrow>
        (\<forall>e w'. promote_exchange g rdd schema w = (Inl e, w') \<longrightarrow>
            scala g (self, w) = (Inl e, (self, w')))
        \<and> (\<forall>created w'. promote_exchange g rdd schema w = (Inr created, w') \<longrightarrow>
            scala g (self, w)
              = (Inr (ScalaFrame created), (self\<lparr>frame := ScalaFrame created\<rparr>, w')))
        \<and> (\<forall>e w1. schema_to_scala g schema w = (Inl e, w1) \<longrightarrow>
              promote_exchange g rdd schema w = (Inl e, w1))
        \<and> (\<forall>scala_schema w1 e w2.
              schema_to_scala g schema w = (Inr scala_schema, w1)
              \<and> pythonToScala g rdd scala_schema w1 = (Inl e, w2) \<longrightarrow>
              promote_exchange g rdd schema w = (Inl e, w2))
        \<and> (\<forall>scala_schema w1 scala_rdd w2.
              schema_to_scala g schema w = (Inr scala_schema, w1)
              \<and> pythonToScala g rdd scala_schema w1 = (Inr scala_rdd, w2) \<longrightarrow>
              promote_exchange g rdd schema w = new_scala_Frame g scala_rdd scala_schema w2)"
proof (intro allI impI)
  fix rdd schema
  assume f: "frame self = PythonFrame rdd schema"
  have up: "(\<forall>e w'. promote_exchange g rdd schema w = (Inl e, w') \<longrightarrow>
            scala g (self, w) = (Inl e, (self, w')))
        \<and> (\<forall>created w'. promote_exchange g rdd schema w = (Inr created, w') \<longrightarrow>
            scala g (self, w)
              = (Inr (ScalaFrame created), (self\<lparr>frame := ScalaFrame created\<rparr>, w')))"
    by (simp add: scala_of_python_frame [OF f])
  show "(\<forall>e w'. promote_exchange g rdd schema w = (Inl e, w') \<longrightarrow>
            scala g (self, w) = (Inl e, (self, w')))
        \<and> (\<forall>created w'. promote_exchange g rdd schema w = (Inr created, w') \<longrightarrow>
            scala g (self, w)
              = (Inr (ScalaFrame created), (self\<lparr>frame := ScalaFrame created\<rparr>, w')))
        \<and> (\<forall>e w1. schema_to_scala g schema w = (Inl e, w1) \<longrightarrow>
              promote_exchange g rdd schema w = (Inl e, w1))
        \<and> (\<forall>scala_schema w1 e w2.
              schema_to_scala g schema w = (Inr scala_schema, w1)
              \<and> pythonToScala g rdd scala_schema w1 = (Inl e, w2) \<longrightarrow>
              promote_exchange g rdd schema w = (Inl e, w2))
        \<and> (\<forall>scala_schema w1 scala_rdd w2.
              schema_to_scala g schema w = (Inr scala_schema, w1)
              \<and> pythonToScala g rdd scala_schema w1 = (Inr scala_rdd, w2) \<longrightarrow>
              promote_exchange g rdd schema w = new_scala_Frame g scala_rdd scala_schema w2)"
    using up promote_exchange_steps [of g schema w rdd]
    by (elim conjE) (intro conjI; assumption)
qed

lemma demote_forward:
  "\<forall>h.
      frame self = ScalaFrame h \<longrightarrow>
        (\<forall>e w'. demote_exchange g h w = (Inl e, w') \<longrightarrow>
            python g (self, w) = (Inl e, (self, w')))
        \<and> (\<forall>python_rdd python_schema w'.
              demote_exchange g h w = (Inr (python_rdd, python_schema), w') \<longrightarrow>
              python g (self, w)
                = (Inr (PythonFrame python_rdd (Some python_schema)),
                   (self\<lparr>frame := PythonFrame python_rdd (Some python_schema)\<rparr>, w')))
        \<and> (\<forall>e w1. scala_frame_schema g h w = (Inl e, w1) \<longrightarrow>
              demote_exchange g h w = (Inl e, w1))
        \<and> (\<forall>scala_schema w1 e w2.
              scala_frame_schema g h w = (Inr scala_schema, w1)
              \<and> scala_frame_rdd g h w1 = (Inl e, w2) \<longrightarrow>
              demote_exchange g h w = (Inl e, w2))
        \<and> (\<forall>scala_schema w1 scala_rdd w2 e w3.
              scala_frame_schema g h w = (Inr scala_schema, w1)
              \<and> scala_frame_rdd g h w1 = (Inr scala_rdd, w2)
              \<and> scalaToPython g scala_rdd w2 = (Inl e, w3) \<longrightarrow>
              demote_exchange g h w = (Inl e, w3))
        \<and> (\<forall>scala_schema w1 scala_rdd w2 java_rdd w3 e w4.
              scala_frame_schema g h w = (Inr scala_schema, w1)
              \<and> scala_frame_rdd g h w1 = (Inr scala_rdd, w2)
              \<and> scalaToPython g scala_rdd w2 = (Inr java_rdd, w3)
              \<and> schema_to_python g scala_schema w3 = (Inl e, w4) \<longrightarrow>
              demote_exchange g h w = (Inl e, w4))
        \<and> (\<forall>scala_schema w1 scala_rdd w2 java_rdd w3 python_schema w4 e w5.
              scala_frame_schema g h w = (Inr scala_schema, w1)
              \<and> scala_frame_rdd g h w1 = (Inr scala_rdd, w2)
              \<and> scalaToPython g scala_rdd w2 = (Inr java_rdd, w3)
              \<and> schema_to_python g scala_schema w3 = (Inr python_schema, w4)
              \<and> new_RDD g java_rdd w4 = (Inl e, w5) \<longrightarrow>
              demote_exchange g h w = (Inl e, w5))
        \<and> (\<forall>scala_schema w1 scala_rdd w2 java_rdd w3 python_schema w4 python_rdd w5.
              scala_frame_schema g h w = (Inr scala_schema, w1)
              \<and> scala_frame_rdd g h w1 = (Inr scala_rdd, w2)
              \<and> scalaToPython g scala_rdd w2 = (Inr java_rdd, w3)
              \<and> schema_to_python g scala_schema w3 = (Inr python_schema, w4)
              \<and> new_RDD g java_rdd w4 = (Inr python_rdd, w5) \<longrightarrow>
              demote_exchange g h w = (Inr (python_rdd, python_schema), w5))"
proof (intro allI impI)
  fix h
  assume f: "frame self = ScalaFrame h"
  have down: "(\<forall>e w'. demote_exchange g h w = (Inl e, w') \<longrightarrow>
            python g (self, w) = (Inl e, (self, w')))
        \<and> (\<forall>python_rdd python_schema w'.
              demote_exchange g h w = (Inr (python_rdd, python_schema), w') \<longrightarrow>
              python g (self, w)
                = (Inr (PythonFrame python_rdd (Some python_schema)),
                   (self\<lparr>frame := PythonFrame python_rdd (Some python_schema)\<rparr>, w')))"
    by (simp add: python_of_scala_frame [OF f])
  show "(\<forall>e w'. demote_exchange g h w = (Inl e, w') \<longrightarrow>
            python g (self, w) = (Inl e, (self, w')))
        \<and> (\<forall>python_rdd python_schema w'.
              demote_exchange g h w = (Inr (python_rdd, python_schema), w') \<longrightarrow>
              python g (self, w)
                = (Inr (PythonFrame python_rdd (Some python_schema)),
                   (self\<lparr>frame := PythonFrame python_rdd (Some python_schema)\<rparr>, w')))
        \<and> (\<forall>e w1. scala_frame_schema g h w = (Inl e, w1) \<longrightarrow>
              demote_exchange g h w = (Inl e, w1))
        \<and> (\<forall>scala_schema w1 e w2.
              scala_frame_schema g h w = (Inr scala_schema, w1)
              \<and> scala_frame_rdd g h w1 = (Inl e, w2) \<longrightarrow>
              demote_exchange g h w = (Inl e, w2))
        \<and> (\<forall>scala_schema w1 scala_rdd w2 e w3.
              scala_frame_schema g h w = (Inr scala_schema, w1)
              \<and> scala_frame_rdd g h w1 = (Inr scala_rdd, w2)
              \<and> scalaToPython g scala_rdd w2 = (Inl e, w3) \<longrightarrow>
              demote_exchange g h w = (Inl e, w3))
        \<and> (\<forall>scala_schema w1 scala_rdd w2 java_rdd w3 e w4.
              scala_frame_schema g h w = (Inr scala_schema, w1)
              \<and> scala_frame_rdd g h w1 = (Inr scala_rdd, w2)
              \<and> scalaToPython g scala_rdd w2 = (Inr java_rdd, w3)
              \<and> schema_to_python g scala_schema w3 = (Inl e, w4) \<longrightarrow>
              demote_exchange g h w = (Inl e, w4))
        \<and> (\<forall>scala_schema w1 scala_rdd w2 java_rdd w3 python_schema w4 e w5.
              scala_frame_schema g h w = (Inr scala_schema, w1)
              \<and> scala_frame_rdd g h w1 = (Inr scala_rdd, w2)
              \<and> scalaToPython g scala_rdd w2 = (Inr java_rdd, w3)
              \<and> schema_to_python g scala_schema w3 = (Inr python_schema, w4)
              \<and> new_RDD g java_rdd w4 = (Inl e, w5) \<longrightarrow>
              demote_exchange g h w = (Inl e, w5))
        \<and> (\<forall>scala_schema w1 scala_rdd w2 java_rdd w3 python_schema w4 python_rdd w5.
              scala_frame_schema g h w = (Inr scala_schema, w1)
              \<and> scala_frame_rdd g h w1 = (Inr scala_rdd, w2)
              \<and> scalaToPython g scala_rdd w2 = (Inr java_rdd, w3)
              \<and> schema_to_python g scala_schema w3 = (Inr python_schema, w4)
              \<and> new_RDD g java_rdd w4 = (Inr python_rdd, w5) \<longrightarrow>
              demote_exchange g h w = (Inr (python_rdd, python_schema), w5))"
    using down demote_exchange_steps [of g h w]
    by (elim conjE) (intro conjI; assumption)
qed

text \<open>
  C5. On a frame whose backend is a \<open>PythonFrame\<close>, \<open>_scala\<close> does what the exchange
  with the engine does: when a step of the exchange raises (the translation of the
  schema, the transfer of the rows, the construction of the Scala frame), \<open>_scala\<close>
  raises that exception and the object is as it was before the call; when the exchange
  returns, the frame it created is installed and returned. The same holds for
  \<open>_python\<close> and the exchange that demotes a Scala frame. Conversely, whenever
  \<open>_scala\<close> or \<open>_python\<close> raises, the object is unchanged and the exception is the one
  that ended the exchange, and whenever it returns, the backend it returns is the one
  installed. The assignment to \<open>self._frame\<close> is the last step of both.
\<close>

theorem backend_swap_is_atomic:
  "(\<forall>rdd schema.
      frame self = PythonFrame rdd schema \<longrightarrow>
        (\<forall>e w'. promote_exchange g rdd schema w = (Inl e, w') \<longrightarrow>
            scala g (self, w) = (Inl e, (self, w')))
        \<and> (\<forall>created w'. promote_exchange g rdd schema w = (Inr created, w') \<longrightarrow>
            scala g (self, w)
              = (Inr (ScalaFrame created), (self\<lparr>frame := ScalaFrame created\<rparr>, w')))
        \<and> (\<forall>e w1. schema_to_scala g schema w = (Inl e, w1) \<longrightarrow>
              promote_exchange g rdd schema w = (Inl e, w1))
        \<and> (\<forall>scala_schema w1 e w2.
              schema_to_scala g schema w = (Inr scala_schema, w1)
              \<and> pythonToScala g rdd scala_schema w1 = (Inl e, w2) \<longrightarrow>
              promote_exchange g rdd schema w = (Inl e, w2))
        \<and> (\<forall>scala_schema w1 scala_rdd w2.
              schema_to_scala g schema w = (Inr scala_schema, w1)
              \<and> pythonToScala g rdd scala_schema w1 = (Inr scala_rdd, w2) \<longrightarrow>
              promote_exchange g rdd schema w = new_scala_Frame g scala_rdd scala_schema w2))
   \<and> (\<forall>h.
      frame self = ScalaFrame h \<longrightarrow>
        (\<forall>e w'. demote_exchange g h w = (Inl e, w') \<longrightarrow>
            python g (self, w) = (Inl e, (self, w')))
        \<and> (\<forall>python_rdd python_schema w'.
              demote_exchange g h w = (Inr (python_rdd, python_schema), w') \<longrightarrow>
              python g (self, w)
                = (Inr (PythonFrame python_rdd (Some python_schema)),
                   (self\<lparr>frame := PythonFrame python_rdd (Some python_schema)\<rparr>, w')))
        \<and> (\<forall>e w1. scala_frame_schema g h w = (Inl e, w1) \<longrightarrow>
              demote_exchange g h w = (Inl e, w1))
        \<and> (\<forall>scala_schema w1 e w2.
              scala_frame_schema g h w = (Inr scala_schema, w1)
              \<and> scala_frame_rdd g h w1 = (Inl e, w2) \<longrightarrow>
              demote_exchange g h w = (Inl e, w2))
        \<and> (\<forall>scala_schema w1 scala_rdd w2 e w3.
              scala_frame_schema g h w = (Inr scala_schema, w1)
              \<and> scala_frame_rdd g h w1 = (Inr scala_rdd, w2)
              \<and> scalaToPython g scala_rdd w2 = (Inl e, w3) \<longrightarrow>
              demote_exchange g h w = (Inl e, w3))
        \<and> (\<forall>scala_schema w1 scala_rdd w2 java_rdd w3 e w4.
              scala_frame_schema g h w = (Inr scala_schema, w1)
              \<and> scala_frame_rdd g h w1 = (Inr scala_rdd, w2)
              \<and> scalaToPython g scala_rdd w2 = (Inr java_rdd, w3)
              \<and> schema_to_python g scala_schema w3 = (Inl e, w4) \<longrightarrow>
              demote_exchange g h w = (Inl e, w4))
        \<and> (\<forall>scala_schema w1 scala_rdd w2 java_rdd w3 python_schema w4 e w5.
              scala_frame_schema g h w = (Inr scala_schema, w1)
              \<and> scala_frame_rdd g h w1 = (Inr scala_rdd, w2)
              \<and> scalaToPython g scala_rdd w2 = (Inr java_rdd, w3)
              \<and> schema_to_python g scala_schema w3 = (Inr python_schema, w4)
              \<and> new_RDD g java_rdd w4 = (Inl e, w5) \<longrightarrow>
              demote_exchange g h w = (Inl e, w5))
        \<and> (\<forall>scala_schema w1 scala_rdd w2 java_rdd w3 python_schema w4 python_rdd w5.
              scala_frame_schema g h w = (Inr scala_schema, w1)
              \<and> scala_frame_rdd g h w1 = (Inr scala_rdd, w2)
              \<and> scalaToPython g scala_rdd w2 = (Inr java_rdd, w3)
              \<and> schema_to_python g scala_schema w3 = (Inr python_schema, w4)
              \<and> new_RDD g java_rdd w4 = (Inr python_rdd, w5) \<longrightarrow>
              demote_exchange g h w = (Inr (python_rdd, python_schema), w5)))
   \<and> (\<forall>e self' w'. scala g (self, w) = (Inl e, (self', w')) \<longrightarrow>
       self' = self
       \<and> (\<exists>rdd schema. frame self = PythonFrame rdd schema
              \<and> promote_exchange g rdd schema w = (Inl e, w')))
   \<and> (\<forall>fr self' w'. scala g (self, w) = (Inr fr, (self', w')) \<longrightarrow>
       frame self' = fr \<and> is_scala self')
   \<and> (\<forall>e self' w'. python g (self, w) = (Inl e, (self', w')) \<longrightarrow>
       self' = self
       \<and> (\<exists>scala_frame. frame self = ScalaFrame scala_frame
              \<and> demote_exchange g scala_frame w = (Inl e, w')))
   \<and> (\<forall>fr self' w'. python g (self, w) = (Inr fr, (self', w')) \<longrightarrow>
       frame self' = fr \<and> is_python self')"
  by (rule conjI [OF promote_forward conjI [OF demote_forward swap_backward]])


theorem backend_swap_is_atomic_witness:
  "schema_to_scala failing_gateway None 0 = (Inr 1, 1)
   \<and> pythonToScala failing_gateway (RDD [Inr [VInt 1]]) 1 1 = (Inl (Exception ''Py4JJavaError''), 2)
   \<and> promote_exchange failing_gateway (RDD [Inr [VInt 1]]) None 0
     = (Inl (Exception ''Py4JJavaError''), 2)
   \<and> scala failing_gateway (\<lparr>frame = PythonFrame (RDD [Inr [VInt 1]]) None\<rparr>, 0)
     = (Inl (Exception ''Py4JJavaError''), (\<lparr>frame = PythonFrame (RDD [Inr [VInt 1]]) None\<rparr>, 2))
   \<and> demote_exchange failing_gateway 7 0 = (Inl (Exception ''Py4JJavaError''), 3)
   \<and> python failing_gateway (\<lparr>frame = ScalaFrame 7\<rparr>, 0)
     = (Inl (Exception ''Py4JJavaError''), (\<lparr>frame = ScalaFrame 7\<rparr>, 3))
   \<and> promote_exchange counting_gateway (RDD [Inr [VInt 1]]) None 0 = (Inr 3, 3)
   \<and> scala counting_gateway (\<lparr>frame = PythonFrame (RDD [Inr [VInt 1]]) None\<rparr>, 0)
     = (Inr (ScalaFrame 3), (\<lparr>frame = ScalaFrame 3\<rparr>, 3))
   \<and> is_scala \<lparr>frame = ScalaFrame 3 :: rat frame_obj\<rparr>
   \<and> demote_exchange counting_gateway 7 0 = (Inr (RDD [], []), 5)
   \<and> python counting_gateway (\<lparr>frame = ScalaFrame 7\<rparr>, 0)
     = (Inr (PythonFrame (RDD []) (Some [])), (\<lparr>frame = PythonFrame (RDD []) (Some [])\<rparr>, 5))
   \<and> is_python \<lparr>frame = PythonFrame (RDD []) (Some []) :: rat frame_obj\<rparr>"
proof -
  let ?rdd = "RDD [Inr [VInt 1 :: rat pyval]]"
  let ?local = "\<lparr>frame = PythonFrame ?rdd None\<rparr>"
  let ?remote = "\<lparr>frame = ScalaFrame 7 :: rat frame_obj\<rparr>"
  let ?err = "Exception ''Py4JJavaError''"
  have fl: "frame ?local = PythonFrame ?rdd None" by simp
  have fr: "frame ?remote = ScalaFrame 7" by simp
  have c1: "schema_to_scala failing_gateway None 0 = (Inr 1, 1)" by code_simp
  have c2: "pythonToScala failing_gateway ?rdd 1 1 = (Inl ?err, 2)" by code_simp
  have c3: "demote_exchange failing_gateway 7 0 = (Inl ?err, 3)" by code_simp
  have c4: "promote_exchange counting_gateway ?rdd None 0 = (Inr 3, 3)" by code_simp
  have c5: "demote_exchange counting_gateway 7 0 = (Inr (RDD [], []), 5)" by code_simp
  note up_fail = backend_swap_is_atomic
    [of ?local failing_gateway 0, THEN conjunct1, THEN spec, THEN spec, THEN mp, OF fl]
  note down_fail = backend_swap_is_atomic
    [of ?remote failing_gateway 0, THEN conjunct2, THEN conjunct1, THEN spec, THEN mp, OF fr]
  note up_ok = backend_swap_is_atomic
    [of ?local counting_gateway 0, THEN conjunct1, THEN spec, THEN spec, THEN mp, OF fl]
  note down_ok = backend_swap_is_atomic
    [of ?remote counting_gateway 0, THEN conjunct2, THEN conjunct1, THEN spec, THEN mp, OF fr]
  note after_up = backend_swap_is_atomic
    [of ?local counting_gateway 0, THEN conjunct2, THEN conjunct2, THEN conjunct2, THEN conjunct1]
  note after_down = backend_swap_is_atomic
    [of ?remote counting_gateway 0, THEN conjunct2, THEN conjunct2, THEN conjunct2, THEN conjunct2,
      THEN conjunct2]
  have e1: "promote_exchange failing_gateway ?rdd None 0 = (Inl ?err, 2)"
    by (rule up_fail [THEN conjunct2, THEN conjunct2, THEN conjunct2, THEN conjunct1,
          THEN spec, THEN spec, THEN spec, THEN spec, THEN mp, OF conjI [OF c1 c2]])
  have r1: "scala failing_gateway (?local, 0) = (Inl ?err, (?local, 2))"
    by (rule up_fail [THEN conjunct1, THEN spec, THEN spec, THEN mp, OF e1])
  have r2: "python failing_gateway (?remote, 0) = (Inl ?err, (?remote, 3))"
    by (rule down_fail [THEN conjunct1, THEN spec, THEN spec, THEN mp, OF c3])
  have r3: "scala counting_gateway (?local, 0)
              = (Inr (ScalaFrame 3), (?local\<lparr>frame := ScalaFrame 3\<rparr>, 3))"
    by (rule up_ok [THEN conjunct2, THEN conjunct1, THEN spec, THEN spec, THEN mp, OF c4])
  then have r3': "scala counting_gateway (?local, 0)
              = (Inr (ScalaFrame 3), (\<lparr>frame = ScalaFrame 3\<rparr>, 3))" by simp
  have r4: "python counting_gateway (?remote, 0)
              = (Inr (PythonFrame (RDD []) (Some [])),
                 (?remote\<lparr>frame := PythonFrame (RDD []) (Some [])\<rparr>, 5))"
    by (rule down_ok [THEN conjunct2, THEN conjunct1, THEN spec, THEN spec, THEN spec, THEN mp,
          OF c5])
  then have r4': "python counting_gateway (?remote, 0)
              = (Inr (PythonFrame (RDD []) (Some [])), (\<lparr>frame = PythonFrame (RDD []) (Some [])\<rparr>, 5))"
    by simp
  have s1: "is_scala \<lparr>frame = ScalaFrame 3 :: rat frame_obj\<rparr>"
    by (rule after_up [THEN spec, THEN spec, THEN spec, THEN mp, OF r3', THEN conjunct2])
  have s2: "is_python \<lparr>frame = PythonFrame (RDD []) (Some []) :: rat frame_obj\<rparr>"
    by (rule after_down [THEN spec, THEN spec, THEN spec, THEN mp, OF r4', THEN conjunct2])
  from c1 c2 e1 r1 c3 r2 c4 r3' s1 c5 r4' s2 show ?thesis by (intro conjI)
qed

text \<open>
  C8. With \<open>validate_schema=True\<close>, a source that is an RDD and a schema that is \<open>None\<close>
  or the empty list give a \<open>PythonFrame\<close> on the RDD as it was passed; so does a list
  source whose resolved schema is \<open>None\<close> or empty, on the parallelized list. The
  constructor raises nothing and calls no validation. The empty data list is the
  example: its inferred schema is empty.
\<close>

theorem empty_schema_skips_validation:
  "(schema = None \<or> schema = Some [] \<longrightarrow>
      Frame_init g l (PyRDD r) schema True w = (Inr \<lparr>frame = PythonFrame r schema\<rparr>, w))
   \<and> (\<forall>resolved. resolve_schema l data schema = Inr resolved
         \<and> (resolved = None \<or> resolved = Some []) \<longrightarrow>
         Frame_init g l (PyList data) schema True w
           = (Inr \<lparr>frame = PythonFrame (parallelize data) resolved\<rparr>, w))
   \<and> Frame_init g l (PyList []) None True w
       = (Inr \<lparr>frame = PythonFrame (parallelize []) (Some [])\<rparr>, w)"
proof -
  have skip: "python_frame_init l src s True = Inr \<lparr>frame = PythonFrame src s\<rparr>"
    if "s = None \<or> s = Some []" for src s
    using that by (auto simp: python_frame_init_def)
  have a: "Frame_init g l (PyRDD r) schema True w = (Inr \<lparr>frame = PythonFrame r schema\<rparr>, w)"
    if "schema = None \<or> schema = Some []"
    using skip [OF that] by (simp add: Frame_init_def)
  have b: "Frame_init g l (PyList data) schema True w
             = (Inr \<lparr>frame = PythonFrame (parallelize data) resolved\<rparr>, w)"
    if "resolve_schema l data schema = Inr resolved" "resolved = None \<or> resolved = Some []"
    for resolved
    using skip [OF that(2)] that(1) by (simp add: Frame_init_def)
  have "resolve_schema l [] None = Inr (Some [])"
    by (simp add: resolve_schema_def infer_schema_def)
  then have c: "Frame_init g l (PyList []) None True w
                  = (Inr \<lparr>frame = PythonFrame (parallelize []) (Some [])\<rparr>, w)"
    using skip [of "Some []"] by (simp add: Frame_init_def)
  from a b c show ?thesis by blast
qed

theorem empty_schema_skips_validation_witness:
  "Frame_init counting_gateway example_lib (PyRDD (RDD [Inr [VStr ''x'', VInt 1]])) None True 0
     = (Inr \<lparr>frame = PythonFrame (RDD [Inr [VStr ''x'', VInt 1]]) None\<rparr>, 0)
   \<and> resolve_schema example_lib [[], []] (Some []) = Inr (Some [])
   \<and> Frame_init counting_gateway example_lib (PyList [[], []]) (Some []) True 0
     = (Inr \<lparr>frame = PythonFrame (parallelize [[], []]) (Some [])\<rparr>, 0)"
proof -
  let ?r = "RDD [Inr [VStr ''x'', VInt 1 :: rat pyval]]"
  have a: "Frame_init counting_gateway example_lib (PyRDD ?r) None True 0
             = (Inr \<lparr>frame = PythonFrame ?r None\<rparr>, 0)"
    using empty_schema_skips_validation [of None counting_gateway example_lib ?r 0] by blast
  have res: "resolve_schema example_lib [[], []] (Some []) = Inr (Some [])"
    by code_simp
  have b: "Frame_init counting_gateway example_lib (PyList [[], []]) (Some []) True 0
             = (Inr \<lparr>frame = PythonFrame (parallelize [[], []]) (Some [])\<rparr>, 0)"
    using empty_schema_skips_validation [of "Some []" counting_gateway example_lib _ 0 "[[], []]"] res
    by blast
  from a res b show ?thesis by blast
qed

end
